theory Spec2Isabelle
  imports Main "HOL-Library.Log_Nat" "HOL-Library.Word"
begin

unbundle bit_operations_syntax

chapter \<open>The ClickHouse migration steps of akvorado's orchestrator\<close>

text \<open>
  A shallow embedding of \<^verbatim>\<open>orchestrator/clickhouse/migrationsteps.go\<close>. The file builds
  SQL text and hands it to a ClickHouse connection; the embedding keeps the text byte for
  byte (a Go \<^verbatim>\<open>string\<close> is a byte sequence, here a \<^typ>\<open>char list\<close>) and passes the
  connection explicitly.
\<close>

section \<open>The Go library functions the file calls\<close>

subsection \<open>Package strings\<close>

text \<open>
  \<^verbatim>\<open>strings.Split(s, sep)\<close> for a separator of one byte, the only kind the file uses
  (a newline, a space): one piece more than there are separators, the empty string
  gives one empty piece.
\<close>

fun Split :: "string \<Rightarrow> char \<Rightarrow> string list" where
  "Split [] sep = [[]]"
| "Split (c # s) sep =
     (if c = sep then [] # Split s sep
      else (case Split s sep of [] \<Rightarrow> [[c]] | p # ps \<Rightarrow> (c # p) # ps))"

text \<open>\<^verbatim>\<open>strings.Join(elems, sep)\<close>.\<close>

fun Join :: "string list \<Rightarrow> string \<Rightarrow> string" where
  "Join [] sep = []"
| "Join [e] sep = e"
| "Join (e # e' # es) sep = e @ sep @ Join (e' # es) sep"

text \<open>
  \<^verbatim>\<open>unicode.IsSpace\<close> on the bytes of an ASCII string: tab, newline, vertical tab, form
  feed, carriage return and space. (The two other Latin-1 spaces, U+0085 and U+00A0, are
  two bytes each in UTF-8; \<^verbatim>\<open>TrimSpace\<close> is only applied to lines of the ASCII constant
  \<^verbatim>\<open>flowsSchema\<close>.)
\<close>

definition IsSpace :: "char \<Rightarrow> bool" where
  "IsSpace c \<longleftrightarrow> c \<in> {CHR 0x09, CHR 0x0A, CHR 0x0B, CHR 0x0C, CHR 0x0D, CHR '' ''}"

text \<open>\<^verbatim>\<open>strings.TrimSpace(s)\<close>: leading and trailing white space removed.\<close>

definition TrimSpace :: "string \<Rightarrow> string" where
  "TrimSpace s = rev (dropWhile IsSpace (rev (dropWhile IsSpace s)))"

text \<open>\<^verbatim>\<open>strings.HasPrefix(s, prefix)\<close>, \<^verbatim>\<open>strings.TrimPrefix(s, prefix)\<close> and
  \<^verbatim>\<open>strings.TrimSuffix(s, suffix)\<close>.\<close>

definition HasPrefix :: "string \<Rightarrow> string \<Rightarrow> bool" where
  "HasPrefix s p \<longleftrightarrow> take (length p) s = p"

definition TrimPrefix :: "string \<Rightarrow> string \<Rightarrow> string" where
  "TrimPrefix s p = (if HasPrefix s p then drop (length p) s else s)"


text \<open>\<^verbatim>\<open>strings.ReplaceAll(s, "\n", " ")\<close>: one byte replaced by another.\<close>

definition ReplaceAll :: "string \<Rightarrow> char \<Rightarrow> char \<Rightarrow> string" where
  "ReplaceAll s old new = map (\<lambda>c. if c = old then new else c) s"

text \<open>\<^verbatim>\<open>strings.Contains(s, substr)\<close>, used to state what a statement holds.\<close>

fun Contains :: "string \<Rightarrow> string \<Rightarrow> bool" where
  "Contains [] sub \<longleftrightarrow> sub = []"
| "Contains (c # s) sub \<longleftrightarrow> HasPrefix (c # s) sub \<or> Contains s sub"

subsection \<open>Package fmt: the verb \<^verbatim>\<open>%d\<close>\<close>

definition digit :: "nat \<Rightarrow> char" where
  "digit d = ''0123456789'' ! d"

fun fmt_uint :: "nat \<Rightarrow> string" where
  "fmt_uint n = (if n < 10 then [digit n] else fmt_uint (n div 10) @ [digit (n mod 10)])"

declare fmt_uint.simps [simp del]

definition fmt_int :: "int \<Rightarrow> string" where
  "fmt_int i = (if i < 0 then CHR ''-'' # fmt_uint (nat (- i)) else fmt_uint (nat i))"

section \<open>Package time: durations\<close>

text \<open>
  A \<^verbatim>\<open>time.Duration\<close> is an \<^verbatim>\<open>int64\<close> count of nanoseconds, here an \<^typ>\<open>int\<close> in the
  range of \<open>int64\<close>. Go's \<^verbatim>\<open>/\<close> and \<^verbatim>\<open>%\<close> on integers truncate toward zero (\<open>quo\<close>,
  \<open>rem\<close>); dividing by zero panics, and the one quotient that leaves the range wraps.
\<close>

definition Second :: int where
  "Second = 1000000000"

definition int64 :: "int \<Rightarrow> bool" where
  "int64 x \<longleftrightarrow> - (2 ^ 63) \<le> x \<and> x < 2 ^ 63"

definition wrap64 :: "int \<Rightarrow> int" where
  "wrap64 x = (x + 2 ^ 63) mod 2 ^ 64 - 2 ^ 63"

definition quo :: "int \<Rightarrow> int \<Rightarrow> int" where
  "quo x y = sgn x * sgn y * (\<bar>x\<bar> div \<bar>y\<bar>)"

definition rem :: "int \<Rightarrow> int \<Rightarrow> int" where
  "rem x y = x - y * quo x y"

definition div64 :: "int \<Rightarrow> int \<Rightarrow> int option" where
  "div64 x y = (if y = 0 then None else Some (wrap64 (quo x y)))"

subsection \<open>The \<^verbatim>\<open>float64\<close> arithmetic of \<^verbatim>\<open>Duration.Seconds\<close>\<close>

text \<open>
  A \<^verbatim>\<open>float64\<close> operation gives the real result rounded to the nearest number with a
  53-bit significand, ties to the even significand. \<open>float64 x\<close> is that rounding for
  a real \<open>x\<close> in the normal range (no overflow, no subnormal), which every operand of
  \<^verbatim>\<open>Seconds\<close> lies in. \<open>exponent x\<close> is \<open>\<lfloor>log\<^sub>2 x\<rfloor>\<close> for \<open>x > 0\<close>, computed on
  integers.
\<close>

definition pow2 :: "int \<Rightarrow> real" where
  "pow2 k = (if 0 \<le> k then 2 ^ nat k else 1 / 2 ^ nat (- k))"

definition exponent :: "real \<Rightarrow> int" where
  "exponent x = (if 1 \<le> x then bitlen \<lfloor>x\<rfloor> - 1 else - bitlen (\<lceil>1 / x\<rceil> - 1))"

definition round_half_even :: "real \<Rightarrow> int" where
  "round_half_even q =
     (let f = \<lfloor>q\<rfloor>; r = q - of_int f
      in if r < 1 / 2 then f else if 1 / 2 < r then f + 1 else if even f then f else f + 1)"

definition float64 :: "real \<Rightarrow> real" where
  "float64 x =
     (if x = 0 then 0
      else let ulp = pow2 (exponent \<bar>x\<bar> - 52) in of_int (round_half_even (x / ulp)) * ulp)"

text \<open>
  \<^verbatim>\<open>func (d Duration) Seconds() float64\<close>:
  \<^verbatim>\<open>sec := d / Second; nsec := d % Second; return float64(sec) + float64(nsec)/1e9\<close>.
\<close>

definition Seconds :: "int \<Rightarrow> real" where
  "Seconds d =
     (let sec = quo d Second; nsec = rem d Second
      in float64 (float64 (of_int sec) + float64 (float64 (of_int nsec) / 1000000000)))"

text \<open>
  The conversion \<^verbatim>\<open>uint64(f)\<close> of a \<^verbatim>\<open>float64\<close> discards the fraction; when the
  truncated value is not a \<^verbatim>\<open>uint64\<close> the Go specification leaves the result to the
  implementation (\<open>None\<close>).
\<close>

definition uint64_of_float :: "real \<Rightarrow> nat option" where
  "uint64_of_float f = (if - 1 < f \<and> f < 2 ^ 64 then Some (nat \<lfloor>f\<rfloor>) else None)"

subsection \<open>\<^verbatim>\<open>Duration.String\<close>, the verb \<^verbatim>\<open>%s\<close> on a duration\<close>

text \<open>
  The library formats into the tail of a buffer, from right to left; \<open>buf\<close> is the part
  of the buffer written so far. \<open>fmtFrac\<close> formats the fraction of \<open>v / 10\<^sup>p\<^sup>r\<^sup>e\<^sup>c\<close> without
  trailing zeros and returns the integer part; \<open>fmtInt\<close> formats an unsigned integer.
\<close>

fun fmtFrac_loop :: "nat \<Rightarrow> string \<Rightarrow> nat \<Rightarrow> bool \<Rightarrow> string \<times> nat \<times> bool" where
  "fmtFrac_loop i buf v pr =
     (if i = 0 then (buf, v, pr)
      else let d = v mod 10; pr' = (pr \<or> d \<noteq> 0)
           in fmtFrac_loop (i - 1) (if pr' then digit d # buf else buf) (v div 10) pr')"

declare fmtFrac_loop.simps [simp del]

definition fmtFrac :: "string \<Rightarrow> nat \<Rightarrow> nat \<Rightarrow> string \<times> nat" where
  "fmtFrac buf v prec =
     (case fmtFrac_loop prec buf v False of
        (buf', v', pr) \<Rightarrow> (if pr then CHR ''.'' # buf' else buf', v'))"

definition fmtInt :: "string \<Rightarrow> nat \<Rightarrow> string" where
  "fmtInt buf v = fmt_uint v @ buf"

definition Duration_String :: "int \<Rightarrow> string" where
  "Duration_String d =
     (let u = nat \<bar>d\<bar>;
          buf =
            (if u < 1000000000 then
               (if u = 0 then ''0s''
                else if u < 1000 then
                  (case fmtFrac ''ns'' u 0 of (b, u') \<Rightarrow> fmtInt b u')
                else if u < 1000000 then
                  (case fmtFrac [CHR 0xC2, CHR 0xB5, CHR ''s''] u 3 of (b, u') \<Rightarrow> fmtInt b u')
                else
                  (case fmtFrac ''ms'' u 6 of (b, u') \<Rightarrow> fmtInt b u'))
             else
               (case fmtFrac ''s'' u 9 of
                  (b, u1) \<Rightarrow>
                    let b1 = fmtInt b (u1 mod 60); u2 = u1 div 60
                    in if 0 < u2 then
                         (let b2 = fmtInt (CHR ''m'' # b1) (u2 mod 60); u3 = u2 div 60
                          in if 0 < u3 then fmtInt (CHR ''h'' # b2) u3 else b2)
                       else b1))
      in if d < 0 then CHR ''-'' # buf else buf)"

section \<open>The ClickHouse connection\<close>

text \<open>
  Errors are values. The driver's own errors are opaque; the others are the
  \<^verbatim>\<open>fmt.Errorf\<close> wrappers of the source, one constructor for each message, and the two
  ways a step can leave the Go specification's defined behaviour.
\<close>

datatype error =
    DriverError string
  | ErrNoRows
  | CannotQuerySortingKey string error
  | UnableToParseSortingKey error
  | CannotDropFlowsConsumerTable int error
  | CannotDropCountryColumns error
  | CannotDropConsumerTable error
  | CannotDropRawConsumerTable error
  | CannotDropRawTable error
  | DivideByZero
  | ImplementationDependent

text \<open>
  What the steps read of the server: for each table of the current database its row of
  \<^verbatim>\<open>system.tables\<close> and its rows of \<^verbatim>\<open>system.columns\<close> (name and type, in the order
  of their position). Table names are unique in a database, so the catalog is a map.
\<close>

record table =
  sorting_key :: string
  engine_full :: string
  as_select :: string
  create_table_query :: string
  table_columns :: "(string \<times> string) list"

type_synonym catalog = "string \<rightharpoonup> table"

text \<open>
  The connection: the catalog it sees, the server's answer to a statement (an error, or
  the catalog after the statement), the error of a query if the server cannot be asked,
  and the statements executed so far.
\<close>

record conn =
  tables :: catalog
  server :: "string \<Rightarrow> catalog \<Rightarrow> error + catalog"
  query_error :: "error option"
  executed :: "string list"

definition Exec :: "conn \<Rightarrow> string \<Rightarrow> error + conn" where
  "Exec c stmt =
     (case server c stmt (tables c) of
        Inl err \<Rightarrow> Inl err
      | Inr t \<Rightarrow> Inr (c\<lparr>tables := t, executed := executed c @ [stmt]\<rparr>))"

text \<open>
  \<^verbatim>\<open>type migrationStep struct\<close>: the check query with its arguments, and the function
  that runs when the check says the step is not done. The Go closure captures the
  connection; here \<open>Do\<close> takes it and returns it.
\<close>

record migrationStep =
  CheckQuery :: string
  Args :: "string list"
  Do :: "conn \<Rightarrow> error + conn"

subsection \<open>The check queries and the rows they return\<close>

definition tableExistsQuery :: string where
  "tableExistsQuery = ''SELECT 1 FROM system.tables WHERE name = $1 AND database = currentDatabase()''"

definition sortingKeyHasQuery :: string where
  "sortingKeyHasQuery =
     ''\<newline>SELECT 1 FROM system.tables'' @
     ''\<newline>WHERE name = $1 AND database = currentDatabase()'' @
     ''\<newline>AND has(splitByRegexp(','' @ [CHR 0x5C, CHR 0x5C] @ ''s*', sorting_key), $2)''"

definition columnExistsQuery :: string where
  "columnExistsQuery =
     ''\<newline>SELECT 1 FROM system.columns'' @
     ''\<newline>WHERE table = $1 AND database = currentDatabase() AND name = $2''"

text \<open>
  ClickHouse's \<^verbatim>\<open>splitByRegexp(',\\s*', s)\<close>: \<open>s\<close> is cut at every comma together with the
  white space that follows it (\<^verbatim>\<open>\s\<close> of RE2: tab, newline, form feed, carriage return,
  space).
\<close>

definition re_space :: "char \<Rightarrow> bool" where
  "re_space c \<longleftrightarrow> c \<in> {CHR 0x09, CHR 0x0A, CHR 0x0C, CHR 0x0D, CHR '' ''}"

definition splitByRegexp_comma :: "string \<Rightarrow> string list" where
  "splitByRegexp_comma s =
     (case Split s CHR '','' of [] \<Rightarrow> [] | p # ps \<Rightarrow> p # map (dropWhile re_space) ps)"

text \<open>The first row a check query returns, if any.\<close>

datatype check_result = Row int | NoRow | QueryFailed

text \<open>
  The server's answer to the check queries of fixed text, read off their SQL:
  \<^verbatim>\<open>SELECT 1\<close> returns one row; the three others return a row \<open>1\<close> for each row of
  \<^verbatim>\<open>system.tables\<close> (\<^verbatim>\<open>system.columns\<close>) of the current database that passes their
  \<^verbatim>\<open>WHERE\<close> clause, and there is at most one.
\<close>

definition QueryRow :: "catalog \<Rightarrow> string \<Rightarrow> string list \<Rightarrow> check_result" where
  "QueryRow db query args =
     (if query = ''SELECT 1'' \<and> args = [] then Row 1
      else if query = tableExistsQuery then
        (case args of
           [name] \<Rightarrow> (case db name of None \<Rightarrow> NoRow | Some t \<Rightarrow> Row 1)
         | _ \<Rightarrow> QueryFailed)
      else if query = sortingKeyHasQuery then
        (case args of
           [name, col] \<Rightarrow>
             (case db name of
                None \<Rightarrow> NoRow
              | Some t \<Rightarrow> if col \<in> set (splitByRegexp_comma (sorting_key t)) then Row 1 else NoRow)
         | _ \<Rightarrow> QueryFailed)
      else if query = columnExistsQuery then
        (case args of
           [name, col] \<Rightarrow>
             (case db name of
                None \<Rightarrow> NoRow
              | Some t \<Rightarrow> if col \<in> fst ` set (table_columns t) then Row 1 else NoRow)
         | _ \<Rightarrow> QueryFailed)
      else QueryFailed)"

definition check :: "migrationStep \<Rightarrow> catalog \<Rightarrow> check_result" where
  "check step db = QueryRow db (CheckQuery step) (Args step)"

text \<open>
  Modelled from the spec: the step runner, which is not in this file. It runs \<open>Do\<close> iff
  the check query returns no row or a row whose value is falsy; a check query that fails
  aborts the run.
\<close>

definition do_invoked :: "check_result \<Rightarrow> bool" where
  "do_invoked r = (case r of Row v \<Rightarrow> v = 0 | NoRow \<Rightarrow> True | QueryFailed \<Rightarrow> False)"

text \<open>A column sits in the sort key of a table of the catalog.\<close>

definition in_sort_key :: "catalog \<Rightarrow> string \<Rightarrow> string \<Rightarrow> bool" where
  "in_sort_key db name col \<longleftrightarrow>
     (\<exists>t. db name = Some t \<and> col \<in> set (splitByRegexp_comma (sorting_key t)))"

section \<open>The schema catalog\<close>

text \<open>\<^verbatim>\<open>flowsSchema\<close>, the canonical schema of the flows table: 54 lines, the first and the
  last empty.\<close>

definition flowsSchema :: string where
  "flowsSchema =
   ''\<newline> TimeReceived DateTime CODEC(DoubleDelta, LZ4),'' @
   ''\<newline> SamplingRate UInt64,'' @
   ''\<newline> ExporterAddress LowCardinality(IPv6),'' @
   ''\<newline> ExporterName LowCardinality(String),'' @
   ''\<newline> ExporterGroup LowCardinality(String),'' @
   ''\<newline> ExporterRole LowCardinality(String),'' @
   ''\<newline> ExporterSite LowCardinality(String),'' @
   ''\<newline> ExporterRegion LowCardinality(String),'' @
   ''\<newline> ExporterTenant LowCardinality(String),'' @
   ''\<newline> SrcAddr IPv6,'' @
   ''\<newline> DstAddr IPv6,'' @
   ''\<newline> SrcNetMask UInt8,'' @
   ''\<newline> DstNetMask UInt8,'' @
   ''\<newline> SrcAS UInt32,'' @
   ''\<newline> DstAS UInt32,'' @
   ''\<newline> SrcNetName LowCardinality(String),'' @
   ''\<newline> DstNetName LowCardinality(String),'' @
   ''\<newline> SrcNetRole LowCardinality(String),'' @
   ''\<newline> DstNetRole LowCardinality(String),'' @
   ''\<newline> SrcNetSite LowCardinality(String),'' @
   ''\<newline> DstNetSite LowCardinality(String),'' @
   ''\<newline> SrcNetRegion LowCardinality(String),'' @
   ''\<newline> DstNetRegion LowCardinality(String),'' @
   ''\<newline> SrcNetTenant LowCardinality(String),'' @
   ''\<newline> DstNetTenant LowCardinality(String),'' @
   ''\<newline> SrcCountry FixedString(2),'' @
   ''\<newline> DstCountry FixedString(2),'' @
   ''\<newline> DstASPath Array(UInt32),'' @
   ''\<newline> Dst1stAS UInt32,'' @
   ''\<newline> Dst2ndAS UInt32,'' @
   ''\<newline> Dst3rdAS UInt32,'' @
   ''\<newline> DstCommunities Array(UInt32),'' @
   ''\<newline> DstLargeCommunities Array(UInt128),'' @
   ''\<newline> InIfName LowCardinality(String),'' @
   ''\<newline> OutIfName LowCardinality(String),'' @
   ''\<newline> InIfDescription String,'' @
   ''\<newline> OutIfDescription String,'' @
   ''\<newline> InIfSpeed UInt32,'' @
   ''\<newline> OutIfSpeed UInt32,'' @
   ''\<newline> InIfConnectivity LowCardinality(String),'' @
   ''\<newline> OutIfConnectivity LowCardinality(String),'' @
   ''\<newline> InIfProvider LowCardinality(String),'' @
   ''\<newline> OutIfProvider LowCardinality(String),'' @
   ''\<newline> InIfBoundary Enum8('undefined' = 0, 'external' = 1, 'internal' = 2),'' @
   ''\<newline> OutIfBoundary Enum8('undefined' = 0, 'external' = 1, 'internal' = 2),'' @
   ''\<newline> EType UInt32,'' @
   ''\<newline> Proto UInt32,'' @
   ''\<newline> SrcPort UInt32,'' @
   ''\<newline> DstPort UInt32,'' @
   ''\<newline> Bytes UInt64,'' @
   ''\<newline> Packets UInt64,'' @
   ''\<newline> ForwardingStatus UInt32'' @
   ''\<newline>''"

text \<open>
  \<^verbatim>\<open>partialSchema(remove...)\<close>: the schema minus some columns. The inner loop of the
  source (\<^verbatim>\<open>continue outer\<close> at the first \<^verbatim>\<open>p\<close> whose \<^verbatim>\<open>p + " "\<close> is a prefix of the
  trimmed line) is \<open>removed_by\<close>; the outer loop keeps the other lines.
\<close>

definition removed_by :: "string list \<Rightarrow> string \<Rightarrow> bool" where
  "removed_by remove l \<longleftrightarrow> (\<exists>p \<in> set remove. HasPrefix (TrimSpace l) (p @ '' ''))"

definition partialSchema :: "string list \<Rightarrow> string" where
  "partialSchema remove =
     Join (filter (\<lambda>l. \<not> removed_by remove l) (Split flowsSchema CHR ''\<newline>'')) ''\<newline>''"

text \<open>\<^verbatim>\<open>columnSpecToName(spec)\<close>: the column name of a creation spec.\<close>

definition columnSpecToName :: "string \<Rightarrow> string" where
  "columnSpecToName spec = hd (Split (TrimPrefix spec ''IF NOT EXISTS '') CHR '' '')"

text \<open>
  \<^verbatim>\<open>addColumnsAfter(after, columns...)\<close>: each column is added after the one before it.
  The loop variable \<^verbatim>\<open>last\<close> is the first argument of \<open>addColumnsAfter_loop\<close>.
\<close>

fun addColumnsAfter_loop :: "string \<Rightarrow> string list \<Rightarrow> string list" where
  "addColumnsAfter_loop last_name [] = []"
| "addColumnsAfter_loop last_name (column # columns) =
     (''ADD COLUMN '' @ column @ '' AFTER '' @ last_name)
       # addColumnsAfter_loop (columnSpecToName column) columns"

definition addColumnsAfter :: "string \<Rightarrow> string list \<Rightarrow> string" where
  "addColumnsAfter after columns = Join (addColumnsAfter_loop after columns) '', ''"

text \<open>The lines of \<^verbatim>\<open>flowsSchema\<close>, one literal each.\<close>

definition flowsLines :: "string list" where
  "flowsLines = [
   '''',
   '' TimeReceived DateTime CODEC(DoubleDelta, LZ4),'',
   '' SamplingRate UInt64,'',
   '' ExporterAddress LowCardinality(IPv6),'',
   '' ExporterName LowCardinality(String),'',
   '' ExporterGroup LowCardinality(String),'',
   '' ExporterRole LowCardinality(String),'',
   '' ExporterSite LowCardinality(String),'',
   '' ExporterRegion LowCardinality(String),'',
   '' ExporterTenant LowCardinality(String),'',
   '' SrcAddr IPv6,'',
   '' DstAddr IPv6,'',
   '' SrcNetMask UInt8,'',
   '' DstNetMask UInt8,'',
   '' SrcAS UInt32,'',
   '' DstAS UInt32,'',
   '' SrcNetName LowCardinality(String),'',
   '' DstNetName LowCardinality(String),'',
   '' SrcNetRole LowCardinality(String),'',
   '' DstNetRole LowCardinality(String),'',
   '' SrcNetSite LowCardinality(String),'',
   '' DstNetSite LowCardinality(String),'',
   '' SrcNetRegion LowCardinality(String),'',
   '' DstNetRegion LowCardinality(String),'',
   '' SrcNetTenant LowCardinality(String),'',
   '' DstNetTenant LowCardinality(String),'',
   '' SrcCountry FixedString(2),'',
   '' DstCountry FixedString(2),'',
   '' DstASPath Array(UInt32),'',
   '' Dst1stAS UInt32,'',
   '' Dst2ndAS UInt32,'',
   '' Dst3rdAS UInt32,'',
   '' DstCommunities Array(UInt32),'',
   '' DstLargeCommunities Array(UInt128),'',
   '' InIfName LowCardinality(String),'',
   '' OutIfName LowCardinality(String),'',
   '' InIfDescription String,'',
   '' OutIfDescription String,'',
   '' InIfSpeed UInt32,'',
   '' OutIfSpeed UInt32,'',
   '' InIfConnectivity LowCardinality(String),'',
   '' OutIfConnectivity LowCardinality(String),'',
   '' InIfProvider LowCardinality(String),'',
   '' OutIfProvider LowCardinality(String),'',
   '' InIfBoundary Enum8('undefined' = 0, 'external' = 1, 'internal' = 2),'',
   '' OutIfBoundary Enum8('undefined' = 0, 'external' = 1, 'internal' = 2),'',
   '' EType UInt32,'',
   '' Proto UInt32,'',
   '' SrcPort UInt32,'',
   '' DstPort UInt32,'',
   '' Bytes UInt64,'',
   '' Packets UInt64,'',
   '' ForwardingStatus UInt32'',
   '''']"

text \<open>
  The first white-space-delimited token of a line, after trimming; a blank line has
  none.
\<close>

definition first_token :: "string \<Rightarrow> string option" where
  "first_token l =
     (let t = TrimSpace l in if t = [] then None else Some (takeWhile (\<lambda>c. \<not> IsSpace c) t))"

section \<open>Fingerprint checks\<close>

text \<open>\<^verbatim>\<open>queryTableHash(hash, more)\<close>: the text of the check query.\<close>

definition queryTableHash :: "64 word \<Rightarrow> string \<Rightarrow> string" where
  "queryTableHash hash more_clause =
     ''\<newline>SELECT bitAnd(v1, v2) FROM ('' @
     ''\<newline> SELECT 1 AS v1'' @
     ''\<newline> FROM system.tables'' @
     ''\<newline> WHERE name = $1 AND database = currentDatabase() '' @ more_clause @
     ''\<newline>) t1, ('' @
     ''\<newline> SELECT groupBitXor(cityHash64(name,type,position)) == '' @ fmt_uint (unat hash) @
     '' AS v2'' @
     ''\<newline> FROM system.columns'' @
     ''\<newline> WHERE table = $1 AND database = currentDatabase()'' @
     ''\<newline>) t2''"

text \<open>
  The server's answer to a fingerprint query is read off the text of the query. The
  reader takes the text apart from its two ends: the query begins with the outer
  \<^verbatim>\<open>SELECT\<close> and the subquery \<open>t1\<close> up to its \<^verbatim>\<open>WHERE\<close> clause, and ends with the
  \<^verbatim>\<open>FROM\<close> and \<^verbatim>\<open>WHERE\<close> of the subquery \<open>t2\<close>; before that end stands the decimal
  literal the aggregate is compared with, before the literal the aggregate itself, and
  what is left between the \<^verbatim>\<open>WHERE\<close> clause of \<open>t1\<close> and the aggregate is the extra
  clause. A text of another shape, or a literal that is no \<^verbatim>\<open>UInt64\<close>, is not read.
\<close>

definition HasSuffix :: "string \<Rightarrow> string \<Rightarrow> bool" where
  "HasSuffix s suf \<longleftrightarrow> HasPrefix (rev s) (rev suf)"

definition is_digit :: "char \<Rightarrow> bool" where
  "is_digit c \<longleftrightarrow> c \<in> set ''0123456789''"

definition digit_value :: "char \<Rightarrow> nat" where
  "digit_value c = of_char c - 48"

definition parse_uint :: "string \<Rightarrow> nat" where
  "parse_uint ds = foldl (\<lambda>n c. 10 * n + digit_value c) 0 ds"

definition fingerprint_select :: string where
  "fingerprint_select =
     ''\<newline>SELECT bitAnd(v1, v2) FROM ('' @
     ''\<newline> SELECT 1 AS v1'' @
     ''\<newline> FROM system.tables'' @
     ''\<newline> WHERE name = $1 AND database = currentDatabase() ''"

definition fingerprint_aggregate :: string where
  "fingerprint_aggregate =
     ''\<newline>) t1, ('' @
     ''\<newline> SELECT groupBitXor(cityHash64(name,type,position)) == ''"

definition fingerprint_from :: string where
  "fingerprint_from =
     '' AS v2'' @
     ''\<newline> FROM system.columns'' @
     ''\<newline> WHERE table = $1 AND database = currentDatabase()'' @
     ''\<newline>) t2''"

definition read_fingerprint_query :: "string \<Rightarrow> (string \<times> nat) option" where
  "read_fingerprint_query query =
     (if HasPrefix query fingerprint_select \<and>
         HasSuffix (drop (length fingerprint_select) query) fingerprint_from
      then
        (let body = take (length query - length fingerprint_select - length fingerprint_from)
                      (drop (length fingerprint_select) query);
             digits = rev (takeWhile is_digit (rev body));
             before = take (length body - length digits) body
         in if digits \<noteq> [] \<and> parse_uint digits < 2 ^ 64 \<and> HasSuffix before fingerprint_aggregate
            then Some (take (length before - length fingerprint_aggregate) before, parse_uint digits)
            else None)
      else None)"

text \<open>
  ClickHouse's \<^verbatim>\<open>LIKE\<close>: in the pattern \<^verbatim>\<open>%\<close> stands for any number of characters, also
  none, \<^verbatim>\<open>_\<close> for any one character, and every other character for itself. The backslash
  escapes; a pattern with a backslash is not read (see \<open>operand_value\<close>).
\<close>

fun like :: "string \<Rightarrow> string \<Rightarrow> bool" where
  "like s [] \<longleftrightarrow> s = []"
| "like [] (p # ps) \<longleftrightarrow> (if p = CHR ''%'' then like [] ps else False)"
| "like (c # s) (p # ps) \<longleftrightarrow>
     (if p = CHR ''%'' then (if like (c # s) ps then True else like s (p # ps))
      else if p = CHR ''_'' \<or> p = c then like s ps
      else False)"

text \<open>
  The extra clause of \<open>t1\<close>, read as a filter on the row of \<^verbatim>\<open>system.tables\<close>: no clause
  at all, or \<^verbatim>\<open>AND column = operand\<close>, or \<^verbatim>\<open>AND column LIKE operand\<close>, where the column
  is one of the catalog and the operand is the second argument \<^verbatim>\<open>$2\<close> or a string literal
  in single quotes. A literal with a quote or a backslash inside, and a clause of another
  shape, are not read.
\<close>

definition tables_column :: "string \<Rightarrow> (table \<Rightarrow> string) option" where
  "tables_column col =
     (if col = ''sorting_key'' then Some sorting_key
      else if col = ''engine_full'' then Some engine_full
      else if col = ''as_select'' then Some as_select
      else if col = ''create_table_query'' then Some create_table_query
      else None)"

definition operand_value :: "string \<Rightarrow> string list \<Rightarrow> string option" where
  "operand_value operand args =
     (if operand = ''$2'' then (case args of _ # v # _ \<Rightarrow> Some v | _ \<Rightarrow> None)
      else if 2 \<le> length operand \<and> hd operand = CHR 0x27 \<and> last operand = CHR 0x27 \<and>
              CHR 0x27 \<notin> set (butlast (tl operand)) \<and> CHR 0x5C \<notin> set (butlast (tl operand))
      then Some (butlast (tl operand))
      else None)"

definition read_more :: "string \<Rightarrow> string list \<Rightarrow> (table \<Rightarrow> bool) option" where
  "read_more clause args =
     (if clause = [] then Some (\<lambda>t. True)
      else if HasPrefix clause ''AND '' then
        (let col = takeWhile (\<lambda>c. c \<noteq> CHR '' '') (drop 4 clause);
             rest = drop (4 + length col) clause
         in case tables_column col of
              None \<Rightarrow> None
            | Some f \<Rightarrow>
                if HasPrefix rest '' LIKE '' then
                  (case operand_value (drop 6 rest) args of
                     None \<Rightarrow> None
                   | Some pattern \<Rightarrow>
                       if CHR 0x5C \<in> set pattern then None else Some (\<lambda>t. like (f t) pattern))
                else if HasPrefix rest '' = '' then
                  (case operand_value (drop 3 rest) args of
                     None \<Rightarrow> None
                   | Some v \<Rightarrow> Some (\<lambda>t. f t = v))
                else None)
      else None)"

text \<open>
  The rows of the query, subquery by subquery. \<open>t1\<close> selects \<open>1\<close> from the row of the
  named table if it exists and passes the extra clause. \<open>t2\<close> aggregates over the
  table's rows of \<^verbatim>\<open>system.columns\<close> without \<^verbatim>\<open>GROUP BY\<close>, so it has exactly one row,
  also over no column at all, where \<^verbatim>\<open>groupBitXor\<close> is \<open>0\<close>; \<^verbatim>\<open>position\<close> counts from
  \<open>1\<close>. The outer query is their cross join under \<^verbatim>\<open>bitAnd\<close>. \<^verbatim>\<open>cityHash64\<close> is
  ClickHouse's; it is a parameter.
\<close>

definition t1_rows :: "catalog \<Rightarrow> (table \<Rightarrow> bool) \<Rightarrow> string \<Rightarrow> int list" where
  "t1_rows db passes name =
     (case db name of None \<Rightarrow> [] | Some t \<Rightarrow> if passes t then [1] else [])"

definition system_columns :: "catalog \<Rightarrow> string \<Rightarrow> (string \<times> string \<times> nat) list" where
  "system_columns db name =
     (case db name of
        None \<Rightarrow> []
      | Some t \<Rightarrow> map (\<lambda>(i, (n, ty)). (n, ty, i)) (enumerate 1 (table_columns t)))"

definition groupBitXor :: "64 word list \<Rightarrow> 64 word" where
  "groupBitXor hs = fold (\<lambda>h acc. acc XOR h) hs 0"

definition fingerprint :: "(string \<Rightarrow> string \<Rightarrow> nat \<Rightarrow> 64 word) \<Rightarrow> catalog \<Rightarrow> string \<Rightarrow> 64 word" where
  "fingerprint cityHash64 db name =
     groupBitXor (map (\<lambda>(n, ty, i). cityHash64 n ty i) (system_columns db name))"

definition t2_rows :: "(string \<Rightarrow> string \<Rightarrow> nat \<Rightarrow> 64 word) \<Rightarrow> catalog \<Rightarrow> nat \<Rightarrow> string \<Rightarrow> int list" where
  "t2_rows cityHash64 db expected name =
     [if unat (fingerprint cityHash64 db name) = expected then 1 else 0]"

definition QueryRow_fingerprint ::
  "(string \<Rightarrow> string \<Rightarrow> nat \<Rightarrow> 64 word) \<Rightarrow> catalog \<Rightarrow> string \<Rightarrow> string list \<Rightarrow> check_result"
where
  "QueryRow_fingerprint cityHash64 db query args =
     (case read_fingerprint_query query of
        None \<Rightarrow> QueryFailed
      | Some (clause, expected) \<Rightarrow>
          (case args of
             [] \<Rightarrow> QueryFailed
           | name # _ \<Rightarrow>
               (case read_more clause args of
                  None \<Rightarrow> QueryFailed
                | Some passes \<Rightarrow>
                    (case concat (map (\<lambda>v1. map (\<lambda>v2. v1 AND v2) (t2_rows cityHash64 db expected name))
                                   (t1_rows db passes name)) of
                       [] \<Rightarrow> NoRow
                     | v # _ \<Rightarrow> Row v))))"

section \<open>Sorting keys\<close>

text \<open>
  \<^verbatim>\<open>appendToSortingKey\<close>: the sorting key of the table, which \<open>sortingKeyQuery\<close> reads
  from \<^verbatim>\<open>system.tables\<close>, followed by the columns. The query fails with the
  connection's error; no row makes \<^verbatim>\<open>Scan\<close> fail.
\<close>

definition sortingKeyQuery :: string where
  "sortingKeyQuery = ''SELECT sorting_key FROM system.tables WHERE name = $1 AND database = currentDatabase()''"

definition appendToSortingKey :: "conn \<Rightarrow> string \<Rightarrow> string list \<Rightarrow> error + string" where
  "appendToSortingKey c table_name columns =
     (case query_error c of
        Some err \<Rightarrow> Inl (CannotQuerySortingKey table_name err)
      | None \<Rightarrow>
          (case tables c table_name of
             None \<Rightarrow> Inl (UnableToParseSortingKey ErrNoRows)
           | Some t \<Rightarrow> Inr (sorting_key t @ '', '' @ Join columns '', '')))"

text \<open>\<^verbatim>\<open>addColumnsAndUpdateSortingKey\<close> combines \<^verbatim>\<open>addColumnsAfter\<close> and \<^verbatim>\<open>appendToSortingKey\<close>.\<close>

definition addColumnsAndUpdateSortingKey ::
  "conn \<Rightarrow> string \<Rightarrow> string \<Rightarrow> string list \<Rightarrow> error + string"
where
  "addColumnsAndUpdateSortingKey c table_name after columns =
     (let modifications = [addColumnsAfter after columns];
          columnNames = map columnSpecToName columns
      in if table_name \<noteq> ''flows'' then
           (case appendToSortingKey c table_name columnNames of
              Inl err \<Rightarrow> Inl err
            | Inr sortingKey \<Rightarrow>
                Inr (Join (modifications @ [''MODIFY ORDER BY ('' @ sortingKey @ '')'']) '', ''))
         else Inr (Join modifications '', ''))"

section \<open>The migration steps\<close>

text \<open>
  The configuration the steps read. \<^verbatim>\<open>ResolutionConfiguration\<close> and the component's
  configuration are declared outside this file; the fields are the ones the steps use.
\<close>

record ResolutionConfiguration =
  Interval :: int
  TTL :: int

record KafkaConfiguration =
  Brokers :: "string list"
  Topic :: string
  Consumers :: int

record Configuration =
  MaxPartitions :: int
  Kafka :: KafkaConfiguration

definition nullMigrationStep :: migrationStep where
  "nullMigrationStep = \<lparr>CheckQuery = ''SELECT 1'', Args = [], Do = (\<lambda>c. Inr c)\<rparr>"

text \<open>
  \<^verbatim>\<open>uint64((resolution.TTL / time.Duration(c.config.MaxPartitions)).Seconds())\<close>, the
  partition interval of \<^verbatim>\<open>migrationsStepCreateFlowsTable\<close>. \<^verbatim>\<open>MaxPartitions\<close> is an
  \<^verbatim>\<open>int\<close>, 64 bits wide, and its conversion to a duration keeps its value.
\<close>

definition partition_interval :: "Configuration \<Rightarrow> ResolutionConfiguration \<Rightarrow> error + nat" where
  "partition_interval config resolution =
     (case div64 (TTL resolution) (MaxPartitions config) of
        None \<Rightarrow> Inl DivideByZero
      | Some q \<Rightarrow>
          (case uint64_of_float (Seconds q) of
             None \<Rightarrow> Inl ImplementationDependent
           | Some p \<Rightarrow> Inr p))"

text \<open>The partition clause of both \<^verbatim>\<open>CREATE TABLE\<close> statements, for an interval of \<open>p\<close> seconds.\<close>

definition partitionBy :: "nat \<Rightarrow> string" where
  "partitionBy p =
     ''PARTITION BY toYYYYMMDDhhmmss(toStartOfInterval(TimeReceived, INTERVAL '' @
     fmt_uint p @ '' second))''"

definition createFlowsStatement :: "nat \<Rightarrow> string" where
  "createFlowsStatement partitionInterval =
     ''\<newline>CREATE TABLE flows ('' @
     ''\<newline>'' @ flowsSchema @
     ''\<newline>)'' @
     ''\<newline>ENGINE = MergeTree'' @
     ''\<newline>PARTITION BY toYYYYMMDDhhmmss(toStartOfInterval(TimeReceived, INTERVAL '' @
     fmt_uint partitionInterval @ '' second))'' @
     ''\<newline>ORDER BY (TimeReceived, ExporterAddress, InIfName, OutIfName)''"

definition consolidatedColumnsRemoved :: "string list" where
  "consolidatedColumnsRemoved =
     [''SrcAddr'', ''DstAddr'', ''SrcNetMask'', ''DstNetMask'', ''SrcPort'', ''DstPort'',
      ''DstASPath'', ''DstCommunities'', ''DstLargeCommunities'']"

definition createConsolidatedStatement :: "string \<Rightarrow> nat \<Rightarrow> string" where
  "createConsolidatedStatement tableName partitionInterval =
     ''\<newline>CREATE TABLE '' @ tableName @ '' ('' @
     ''\<newline>'' @ partialSchema consolidatedColumnsRemoved @
     ''\<newline>)'' @
     ''\<newline>ENGINE = SummingMergeTree((Bytes, Packets))'' @
     ''\<newline>PARTITION BY toYYYYMMDDhhmmss(toStartOfInterval(TimeReceived, INTERVAL '' @
     fmt_uint partitionInterval @ '' second))'' @
     ''\<newline>PRIMARY KEY (TimeReceived,'' @
     ''\<newline>          ExporterAddress,'' @
     ''\<newline>          EType, Proto,'' @
     ''\<newline>          InIfName, SrcAS, ForwardingStatus,'' @
     ''\<newline>          OutIfName, DstAS,'' @
     ''\<newline>          SamplingRate)'' @
     ''\<newline>ORDER BY (TimeReceived,'' @
     ''\<newline>          ExporterAddress,'' @
     ''\<newline>          EType, Proto,'' @
     ''\<newline>          InIfName, SrcAS, ForwardingStatus,'' @
     ''\<newline>          OutIfName, DstAS,'' @
     ''\<newline>          SamplingRate,'' @
     ''\<newline>          SrcNetName, DstNetName,'' @
     ''\<newline>          SrcNetRole, DstNetRole,'' @
     ''\<newline>          SrcNetSite, DstNetSite,'' @
     ''\<newline>          SrcNetRegion, DstNetRegion,'' @
     ''\<newline>          SrcNetTenant, DstNetTenant,'' @
     ''\<newline>          SrcCountry, DstCountry,'' @
     ''\<newline>          Dst1stAS, Dst2ndAS, Dst3rdAS)''"

text \<open>
  \<^verbatim>\<open>migrationsStepCreateFlowsTable\<close>. For the unconsolidated table the partition
  interval is computed when the step is built, for a consolidated table inside \<open>Do\<close>,
  after the consumer view is dropped.
\<close>

definition migrationsStepCreateFlowsTable ::
  "Configuration \<Rightarrow> ResolutionConfiguration \<Rightarrow> error + migrationStep"
where
  "migrationsStepCreateFlowsTable config resolution =
     (if Interval resolution = 0 then
        (case partition_interval config resolution of
           Inl err \<Rightarrow> Inl err
         | Inr p \<Rightarrow>
             Inr \<lparr>CheckQuery = tableExistsQuery, Args = [''flows''],
                  Do = (\<lambda>c. Exec c (createFlowsStatement p))\<rparr>)
      else
        (let tableName = ''flows_'' @ Duration_String (Interval resolution);
             viewName = tableName @ ''_consumer''
         in Inr \<lparr>CheckQuery = tableExistsQuery, Args = [tableName],
                 Do = (\<lambda>c.
                   case Exec c (''DROP TABLE IF EXISTS '' @ viewName @ '' SYNC'') of
                     Inl err \<Rightarrow> Inl (CannotDropFlowsConsumerTable (Interval resolution) err)
                   | Inr c' \<Rightarrow>
                       (case partition_interval config resolution of
                          Inl err \<Rightarrow> Inl err
                        | Inr p \<Rightarrow> Exec c' (createConsolidatedStatement tableName p)))\<rparr>))"

text \<open>\<^verbatim>\<open>migrationStepFixOrderByCountry\<close>.\<close>

definition migrationStepFixOrderByCountry :: "ResolutionConfiguration \<Rightarrow> migrationStep" where
  "migrationStepFixOrderByCountry resolution =
     (if Interval resolution = 0 then nullMigrationStep
      else
        (let tableName = ''flows_'' @ Duration_String (Interval resolution)
         in \<lparr>CheckQuery = sortingKeyHasQuery, Args = [tableName, ''SrcCountry''],
             Do = (\<lambda>c.
               case Exec c (''ALTER TABLE '' @ tableName @ '' DROP COLUMN SrcCountry, DROP COLUMN DstCountry'') of
                 Inl err \<Rightarrow> Inl (CannotDropCountryColumns err)
               | Inr c' \<Rightarrow>
                   (case addColumnsAndUpdateSortingKey c' tableName ''DstNetTenant''
                           [''SrcCountry FixedString(2)'', ''DstCountry FixedString(2)''] of
                      Inl err \<Rightarrow> Inl err
                    | Inr modifications \<Rightarrow>
                        Exec c' (''ALTER TABLE '' @ tableName @ '' '' @ modifications)))\<rparr>))"

text \<open>\<^verbatim>\<open>migrationStepAddSrcNetMaskDstNetMaskColumns\<close>.\<close>

definition migrationStepAddSrcNetMaskDstNetMaskColumns :: migrationStep where
  "migrationStepAddSrcNetMaskDstNetMaskColumns =
     \<lparr>CheckQuery = columnExistsQuery, Args = [''flows'', ''SrcNetMask''],
      Do = (\<lambda>c.
        case addColumnsAndUpdateSortingKey c ''flows'' ''DstAddr''
               [''SrcNetMask UInt8'', ''DstNetMask UInt8''] of
          Inl err \<Rightarrow> Inl err
        | Inr modifications \<Rightarrow> Exec c (''ALTER TABLE flows '' @ modifications))\<rparr>"

text \<open>
  \<^verbatim>\<open>migrationsStepCreateFlowsConsumerTable\<close>. The select clause is built with the
  step: its newlines become spaces and it is trimmed.
\<close>

definition consumerSelectClause :: "nat \<Rightarrow> string" where
  "consumerSelectClause seconds =
     TrimSpace (ReplaceAll
       (''\<newline>SELECT *'' @
        ''\<newline>EXCEPT (SrcAddr, DstAddr, SrcNetMask, DstNetMask, SrcPort, DstPort, DstASPath, DstCommunities, DstLargeCommunities)'' @
        ''\<newline>REPLACE toStartOfInterval(TimeReceived, toIntervalSecond('' @ fmt_uint seconds @
        '')) AS TimeReceived'')
       CHR ''\<newline>'' CHR '' '')"

definition createConsumerStatement :: "string \<Rightarrow> string \<Rightarrow> string \<Rightarrow> string" where
  "createConsumerStatement viewName tableName selectClause =
     ''\<newline>CREATE MATERIALIZED VIEW '' @ viewName @ '' TO '' @ tableName @
     ''\<newline>AS '' @ selectClause @
     ''\<newline>FROM '' @ ''flows''"


text \<open>
  \<^verbatim>\<open>migrationStepCreateRawFlowsTable\<close>. \<^verbatim>\<open>flow.CurrentSchemaVersion\<close> is a constant of
  another package; it is a parameter.
\<close>

definition rawColumnsRemoved :: "string list" where
  "rawColumnsRemoved =
     [''SrcNetName'', ''DstNetName'', ''SrcNetRole'', ''DstNetRole'', ''SrcNetSite'', ''DstNetSite'',
      ''SrcNetRegion'', ''DstNetRegion'', ''SrcNetTenant'', ''DstNetTenant'',
      ''Dst1stAS'', ''Dst2ndAS'', ''Dst3rdAS'', ''DstLargeCommunities'']"

definition kafkaEngine :: "Configuration \<Rightarrow> int \<Rightarrow> string" where
  "kafkaEngine config CurrentSchemaVersion =
     ''Kafka SETTINGS '' @
     Join
       [''kafka_broker_list = '' @ [CHR 0x27] @ Join (Brokers (Kafka config)) '','' @ [CHR 0x27],
        ''kafka_topic_list = '' @ [CHR 0x27] @ Topic (Kafka config) @ ''-v'' @
          fmt_int CurrentSchemaVersion @ [CHR 0x27],
        ''kafka_group_name = 'clickhouse'' @ [CHR 0x27],
        ''kafka_format = 'Protobuf'' @ [CHR 0x27],
        ''kafka_schema = 'flow-'' @ fmt_int CurrentSchemaVersion @ ''.proto:FlowMessagev'' @
          fmt_int CurrentSchemaVersion @ [CHR 0x27],
        ''kafka_num_consumers = '' @ fmt_int (Consumers (Kafka config)),
        ''kafka_thread_per_consumer = 1'',
        ''kafka_handle_error_mode = 'stream'' @ [CHR 0x27]]
       '', ''"

definition createRawStatement :: "string \<Rightarrow> string \<Rightarrow> string" where
  "createRawStatement tableName engine =
     ''\<newline>CREATE TABLE '' @ tableName @
     ''\<newline>('' @
     ''\<newline>'' @ partialSchema rawColumnsRemoved @ '','' @
     ''\<newline>DstLargeCommunities Nested(ASN UInt32, LocalData1 UInt32, LocalData2 UInt32)'' @
     ''\<newline>)'' @
     ''\<newline>ENGINE = '' @ engine"

definition migrationStepCreateRawFlowsTable :: "Configuration \<Rightarrow> int \<Rightarrow> migrationStep" where
  "migrationStepCreateRawFlowsTable config CurrentSchemaVersion =
     (let tableName = ''flows_'' @ fmt_int CurrentSchemaVersion @ ''_raw''
      in \<lparr>CheckQuery = queryTableHash 8163754828379578018 ''AND engine_full = $2'',
          Args = [tableName, kafkaEngine config CurrentSchemaVersion],
          Do = (\<lambda>c.
            case Exec c (''DROP TABLE IF EXISTS '' @ tableName @ ''_consumer SYNC'') of
              Inl err \<Rightarrow> Inl (CannotDropRawConsumerTable err)
            | Inr c' \<Rightarrow>
                (case Exec c' (''DROP TABLE IF EXISTS '' @ tableName @ '' SYNC'') of
                   Inl err \<Rightarrow> Inl (CannotDropRawTable err)
                 | Inr c'' \<Rightarrow>
                     Exec c'' (createRawStatement tableName
                       (kafkaEngine config CurrentSchemaVersion))))\<rparr>)"

text \<open>\<^verbatim>\<open>migrationStepCreateRawFlowsConsumerView\<close>.\<close>

definition largeCommunitiesColumns :: string where
  "largeCommunitiesColumns =
     Join [''`DstLargeCommunities.ASN`'', ''`DstLargeCommunities.LocalData1`'',
           ''`DstLargeCommunities.LocalData2`''] '',''"

definition createRawConsumerStatement :: "string \<Rightarrow> string \<Rightarrow> string" where
  "createRawConsumerStatement viewName tableName =
     ''\<newline>CREATE MATERIALIZED VIEW '' @ viewName @ '' TO flows'' @
     ''\<newline>AS WITH arrayCompact(DstASPath) AS c_DstASPath SELECT'' @
     ''\<newline> * EXCEPT ('' @ largeCommunitiesColumns @ ''),'' @
     ''\<newline> dictGetOrDefault('networks', 'name', SrcAddr, '' @ [CHR 0x27, CHR 0x27] @
     '') AS SrcNetName,'' @
     ''\<newline> dictGetOrDefault('networks', 'name', DstAddr, '' @ [CHR 0x27, CHR 0x27] @
     '') AS DstNetName,'' @
     ''\<newline> dictGetOrDefault('networks', 'role', SrcAddr, '' @ [CHR 0x27, CHR 0x27] @
     '') AS SrcNetRole,'' @
     ''\<newline> dictGetOrDefault('networks', 'role', DstAddr, '' @ [CHR 0x27, CHR 0x27] @
     '') AS DstNetRole,'' @
     ''\<newline> dictGetOrDefault('networks', 'site', SrcAddr, '' @ [CHR 0x27, CHR 0x27] @
     '') AS SrcNetSite,'' @
     ''\<newline> dictGetOrDefault('networks', 'site', DstAddr, '' @ [CHR 0x27, CHR 0x27] @
     '') AS DstNetSite,'' @
     ''\<newline> dictGetOrDefault('networks', 'region', SrcAddr, '' @ [CHR 0x27, CHR 0x27] @
     '') AS SrcNetRegion,'' @
     ''\<newline> dictGetOrDefault('networks', 'region', DstAddr, '' @ [CHR 0x27, CHR 0x27] @
     '') AS DstNetRegion,'' @
     ''\<newline> dictGetOrDefault('networks', 'tenant', SrcAddr, '' @ [CHR 0x27, CHR 0x27] @
     '') AS SrcNetTenant,'' @
     ''\<newline> dictGetOrDefault('networks', 'tenant', DstAddr, '' @ [CHR 0x27, CHR 0x27] @
     '') AS DstNetTenant,'' @
     ''\<newline> c_DstASPath[1] AS Dst1stAS,'' @
     ''\<newline> c_DstASPath[2] AS Dst2ndAS,'' @
     ''\<newline> c_DstASPath[3] AS Dst3rdAS,'' @
     ''\<newline> arrayMap((asn, l1, l2) -> bitShiftLeft(asn::UInt128, 64) + bitShiftLeft(l1::UInt128, 32) + l2::UInt128, '' @
     largeCommunitiesColumns @ '') AS DstLargeCommunities'' @
     ''\<newline>FROM '' @ tableName @
     ''\<newline>WHERE length(_error) = 0''"

definition migrationStepCreateRawFlowsConsumerView :: "int \<Rightarrow> migrationStep" where
  "migrationStepCreateRawFlowsConsumerView CurrentSchemaVersion =
     (let tableName = ''flows_'' @ fmt_int CurrentSchemaVersion @ ''_raw'';
          viewName = tableName @ ''_consumer''
      in \<lparr>CheckQuery =
            queryTableHash 7925127510274634003
              (''AND as_select LIKE '' @ [CHR 0x27] @ ''% WHERE length(_error) = 0'' @ [CHR 0x27]),
          Args = [viewName],
          Do = (\<lambda>c.
            case Exec c (''DROP TABLE IF EXISTS '' @ viewName @ '' SYNC'') of
              Inl err \<Rightarrow> Inl (CannotDropConsumerTable err)
            | Inr c' \<Rightarrow> Exec c' (createRawConsumerStatement viewName tableName))\<rparr>)"




section \<open>Names for the tables and statements of the steps\<close>

text \<open>
  \<open>flowsTableName\<close> is \<^verbatim>\<open>tableName\<close> of the per-resolution steps and \<open>rawTableName\<close>
  that of the raw table. \<open>duration_chars\<close> is the alphabet of a formatted duration. The
  other constants name the statements that the steps are shown to execute.
\<close>

definition flowsTableName :: "ResolutionConfiguration \<Rightarrow> string" where
  "flowsTableName resolution =
     (if Interval resolution = 0 then ''flows''
      else ''flows_'' @ Duration_String (Interval resolution))"

definition dropCountryColumns :: "string \<Rightarrow> string" where
  "dropCountryColumns tableName =
     ''ALTER TABLE '' @ tableName @ '' DROP COLUMN SrcCountry, DROP COLUMN DstCountry''"

definition addCountryColumns :: "string \<Rightarrow> string \<Rightarrow> string" where
  "addCountryColumns tableName sortingKey =
     ''ALTER TABLE '' @ tableName @
     '' ADD COLUMN SrcCountry FixedString(2) AFTER DstNetTenant, '' @
     ''ADD COLUMN DstCountry FixedString(2) AFTER SrcCountry, '' @
     ''MODIFY ORDER BY ('' @ sortingKey @ '', SrcCountry, DstCountry)''"

definition addNetMaskColumns :: string where
  "addNetMaskColumns =
     ''ALTER TABLE flows ADD COLUMN SrcNetMask UInt8 AFTER DstAddr, '' @
     ''ADD COLUMN DstNetMask UInt8 AFTER SrcNetMask''"


definition consumerSelect :: "nat \<Rightarrow> string" where
  "consumerSelect seconds =
     ''SELECT * EXCEPT ('' @ Join consolidatedColumnsRemoved '', '' @
     '') REPLACE toStartOfInterval(TimeReceived, toIntervalSecond('' @ fmt_uint seconds @
     '')) AS TimeReceived''"

definition createConsumerView :: "string \<Rightarrow> nat \<Rightarrow> string" where
  "createConsumerView tableName seconds =
     ''\<newline>CREATE MATERIALIZED VIEW '' @ tableName @ ''_consumer TO '' @ tableName @
     ''\<newline>AS '' @ consumerSelect seconds @
     ''\<newline>FROM flows''"

definition rawTableName :: "int \<Rightarrow> string" where
  "rawTableName CurrentSchemaVersion = ''flows_'' @ fmt_int CurrentSchemaVersion @ ''_raw''"


chapter \<open>Properties\<close>

section \<open>Splitting and joining\<close>

lemma Split_not_Nil: "Split s sep \<noteq> []"
  by (induction s) (auto split: list.splits)

lemma Split_no_sep: "l \<in> set (Split s sep) \<Longrightarrow> sep \<notin> set l"
proof (induction s arbitrary: l)
  case Nil
  then show ?case by simp
next
  case (Cons c s)
  then show ?case
    by (cases "Split s sep") (auto split: if_splits)
qed

lemma Split_free: "sep \<notin> set a \<Longrightarrow> Split a sep = [a]"
  by (induction a) auto

lemma Split_append_sep: "sep \<notin> set a \<Longrightarrow> Split (a @ sep # s) sep = a # Split s sep"
  by (induction a) auto

lemma Split_Join:
  "ls \<noteq> [] \<Longrightarrow> \<forall>l \<in> set ls. sep \<notin> set l \<Longrightarrow> Split (Join ls [sep]) sep = ls"
proof (induction ls "[sep]" rule: Join.induct)
  case 1
  then show ?case by simp
next
  case (2 e)
  then show ?case by (simp add: Split_free)
next
  case (3 e e' es)
  then show ?case by (simp add: Split_append_sep)
qed

lemma set_TrimSpace: "set (TrimSpace l) \<subseteq> set l"
proof -
  have "set (TrimSpace l) = set (dropWhile IsSpace (rev (dropWhile IsSpace l)))"
    by (simp add: TrimSpace_def)
  also have "\<dots> \<subseteq> set (rev (dropWhile IsSpace l))"
    by (meson set_dropWhileD subsetI)
  also have "\<dots> \<subseteq> set l"
    using set_dropWhileD by fastforce
  finally show ?thesis .
qed

lemma HasPrefix_append: "HasPrefix (p @ r) p"
  by (simp add: HasPrefix_def)

lemma HasPrefix_D: "HasPrefix s p \<Longrightarrow> \<exists>r. s = p @ r"
  unfolding HasPrefix_def by (metis append_take_drop_id)

section \<open>The lines of the schema\<close>

lemma flowsSchema_Join: "flowsSchema = Join flowsLines ''\<newline>''"
  by (simp add: flowsSchema_def flowsLines_def)

lemma flowsLines_nl: "\<forall>l \<in> set flowsLines. CHR ''\<newline>'' \<notin> set l"
  by (simp add: flowsLines_def)

lemma flowsSchema_lines: "Split flowsSchema CHR ''\<newline>'' = flowsLines"
  unfolding flowsSchema_Join
  by (rule Split_Join) (simp_all add: flowsLines_nl, simp add: flowsLines_def)

text \<open>The only white space inside a line is the space, and every column line has one
  after trimming: a name, a space, a type.\<close>

lemma flowsLines_space:
  "\<forall>l \<in> set flowsLines. \<forall>c \<in> set l. IsSpace c \<longrightarrow> c = CHR '' ''"
  by (simp add: flowsLines_def IsSpace_def)

lemma flowsLines_name_type:
  "\<forall>l \<in> set flowsLines. TrimSpace l \<noteq> [] \<longrightarrow> CHR '' '' \<in> set (TrimSpace l)"
  by (simp add: flowsLines_def TrimSpace_def IsSpace_def)

lemma removed_iff_first_token:
  assumes l: "l \<in> set flowsLines"
    and p: "CHR '' '' \<notin> set p"
  shows "HasPrefix (TrimSpace l) (p @ '' '') \<longleftrightarrow> first_token l = Some p"
proof
  assume "HasPrefix (TrimSpace l) (p @ '' '')"
  then obtain r where t: "TrimSpace l = (p @ '' '') @ r"
    using HasPrefix_D by blast
  have "set p \<subseteq> set l"
    using set_TrimSpace [of l] t by auto
  with l p flowsLines_space have nsp: "\<forall>c \<in> set p. \<not> IsSpace c"
    by blast
  have "takeWhile (\<lambda>c. \<not> IsSpace c) (p @ CHR '' '' # r) = p"
    using nsp by (simp add: takeWhile_tail IsSpace_def)
  with t show "first_token l = Some p"
    by (simp add: first_token_def)
next
  assume ft: "first_token l = Some p"
  define t where "t = TrimSpace l"
  from ft have tne: "t \<noteq> []" and pt: "p = takeWhile (\<lambda>c. \<not> IsSpace c) t"
    by (auto simp: first_token_def t_def Let_def split: if_splits)
  define r where "r = dropWhile (\<lambda>c. \<not> IsSpace c) t"
  have tpr: "t = p @ r"
    by (simp add: pt r_def)
  have sp: "CHR '' '' \<in> set t"
    using flowsLines_name_type l tne by (auto simp: t_def)
  have "r \<noteq> []"
  proof
    assume "r = []"
    then have "\<forall>c \<in> set t. \<not> IsSpace c"
      by (simp add: r_def)
    with sp show False by (auto simp: IsSpace_def)
  qed
  then obtain c r' where r: "r = c # r'"
    by (cases r) auto
  have "\<not> \<not> IsSpace (hd r)"
    unfolding r_def by (rule hd_dropWhile) (use \<open>r \<noteq> []\<close> in \<open>simp add: r_def\<close>)
  then have "IsSpace c"
    by (simp add: r)
  moreover have "c \<in> set l"
    using set_TrimSpace [of l] tpr r by (auto simp: t_def)
  ultimately have "c = CHR '' ''"
    using flowsLines_space l by blast
  with tpr r have "t = (p @ '' '') @ r'" by simp
  then show "HasPrefix (TrimSpace l) (p @ '' '')"
    unfolding t_def using HasPrefix_append by metis
qed

lemma removed_by_flowsLines:
  assumes "\<forall>p \<in> set X. CHR '' '' \<notin> set p" and "l \<in> set flowsLines"
  shows "removed_by X l \<longleftrightarrow> (\<exists>p \<in> set X. first_token l = Some p)"
  unfolding removed_by_def using assms removed_iff_first_token by blast

lemma blank_kept: "\<not> removed_by X []"
  by (simp add: removed_by_def TrimSpace_def HasPrefix_def)

lemma partialSchema_lines:
  "Split (partialSchema X) CHR ''\<newline>'' = filter (\<lambda>l. \<not> removed_by X l) flowsLines"
proof -
  have "[] \<in> set flowsLines"
    by (simp add: flowsLines_def)
  then have "[] \<in> set (filter (\<lambda>l. \<not> removed_by X l) flowsLines)"
    by (simp add: blank_kept)
  then have ne: "filter (\<lambda>l. \<not> removed_by X l) flowsLines \<noteq> []"
    by (metis empty_iff empty_set)
  show ?thesis
    unfolding partialSchema_def flowsSchema_lines
    by (rule Split_Join [OF ne]) (simp add: flowsLines_nl)
qed

lemma partialSchema_lines_first_token:
  assumes "\<forall>p \<in> set X. CHR '' '' \<notin> set p"
  shows "Split (partialSchema X) CHR ''\<newline>'' =
         filter (\<lambda>l. \<not> (\<exists>p \<in> set X. first_token l = Some p)) flowsLines"
proof -
  have "filter (\<lambda>l. \<not> removed_by X l) flowsLines =
        filter (\<lambda>l. \<not> (\<exists>p \<in> set X. first_token l = Some p)) flowsLines"
    by (rule filter_cong) (simp_all add: removed_by_flowsLines [OF assms])
  then show ?thesis
    by (simp add: partialSchema_lines)
qed

text \<open>
  Claim C8. For every list \<open>X\<close> of column names (strings without a space),
  \<open>partialSchema X\<close> is a string whose lines are exactly the lines of \<open>flowsSchema\<close>
  minus those whose first white-space-delimited token, after trimming, is a member of
  \<open>X\<close>; the lines kept are unchanged and in their original order.
\<close>

theorem partialSchema_removes_lines_by_first_token:
  assumes "\<forall>p \<in> set X. CHR '' '' \<notin> set p"
  shows "Split (partialSchema X) CHR ''\<newline>'' =
         filter (\<lambda>l. \<not> (\<exists>p \<in> set X. first_token l = Some p)) (Split flowsSchema CHR ''\<newline>'')"
  using partialSchema_lines_first_token [OF assms] by (simp add: flowsSchema_lines)

theorem partialSchema_removes_lines_by_first_token_witness:
  "CHR '' '' \<notin> set ''SrcAddr'' \<and> CHR '' '' \<notin> set ''DstAddr'' \<and>
   Split (partialSchema [''SrcAddr'', ''DstAddr'']) CHR ''\<newline>'' =
     filter (\<lambda>l. \<not> (\<exists>p \<in> set [''SrcAddr'', ''DstAddr'']. first_token l = Some p))
       (Split flowsSchema CHR ''\<newline>'')"
proof -
  have h: "\<forall>p \<in> set [''SrcAddr'', ''DstAddr'']. CHR '' '' \<notin> set p"
    by simp
  show ?thesis
    using partialSchema_removes_lines_by_first_token [OF h] by simp
qed

section \<open>Evaluating the formatting functions\<close>

lemmas duration_string_eval =
  Duration_String_def fmtFrac_def fmtFrac_loop.simps fmtInt_def fmt_uint.simps digit_def Let_def

section \<open>Durations in seconds\<close>

lemma quo_nonneg: "0 \<le> x \<Longrightarrow> 0 < y \<Longrightarrow> quo x y = x div y"
  by (cases "x = 0") (simp_all add: quo_def)

lemma rem_nonneg: "0 \<le> x \<Longrightarrow> 0 < y \<Longrightarrow> rem x y = x mod y"
  by (simp add: rem_def quo_nonneg minus_mult_div_eq_mod)

lemma wrap64_id:
  assumes "int64 x"
  shows "wrap64 x = x"
proof -
  have "0 \<le> x + 2 ^ 63" "x + 2 ^ 63 < 2 ^ 64"
    using assms by (simp_all add: int64_def)
  then have "(x + 2 ^ 63) mod 2 ^ 64 = x + 2 ^ 63"
    by (rule mod_pos_pos_trivial)
  then show ?thesis
    by (simp only: wrap64_def)
qed

lemma div64_nonneg:
  assumes "0 \<le> x" "x < 2 ^ 63" "0 < y"
  shows "div64 x y = Some (x div y)"
proof -
  have "0 \<le> x div y"
    using assms by (simp add: pos_imp_zdiv_nonneg_iff)
  moreover have "x div y \<le> x"
    using zdiv_mono2 [of x 1 y] assms by simp
  ultimately have "int64 (x div y)"
    using assms(2) by (simp add: int64_def)
  then show ?thesis
    using assms by (simp add: div64_def quo_nonneg wrap64_id)
qed

text \<open>Rounding to the nearest integer does not cross an integer.\<close>

lemma round_half_even_ge: "of_int k \<le> q \<Longrightarrow> k \<le> round_half_even q"
  unfolding round_half_even_def Let_def
  by (auto simp: le_floor_iff intro: order_trans [of k "\<lfloor>q\<rfloor>" "\<lfloor>q\<rfloor> + 1"])

lemma round_half_even_le: "q \<le> of_int k \<Longrightarrow> round_half_even q \<le> k"
proof -
  assume q: "q \<le> of_int k"
  show ?thesis
  proof (cases "q = of_int k")
    case True
    then show ?thesis by (simp add: round_half_even_def)
  next
    case False
    with q have "q < of_int k" by simp
    then have "\<lfloor>q\<rfloor> < k"
      by (simp add: floor_less_iff)
    then show ?thesis
      unfolding round_half_even_def Let_def by auto
  qed
qed

lemma pow2_pos: "0 < pow2 k"
  by (simp add: pow2_def)

lemma pow2_inverse_int: "k \<le> 0 \<Longrightarrow> 1 / pow2 k = of_int (2 ^ nat (- k))"
  by (simp add: pow2_def)

lemma exponent_le_52:
  assumes "0 < x" "x < 2 ^ 53"
  shows "exponent x \<le> 52"
proof (cases "1 \<le> x")
  case True
  have "\<lfloor>x\<rfloor> < 2 ^ 53"
    using assms(2) by (simp add: floor_less_iff)
  then have "bitlen \<lfloor>x\<rfloor> \<le> 53"
    by (simp add: bitlen_le_iff_power)
  with True show ?thesis
    by (simp add: exponent_def)
next
  case False
  then show ?thesis
    using bitlen_nonneg [of "\<lceil>1 / x\<rceil> - 1"] by (simp add: exponent_def)
qed

text \<open>
  Below \<open>2\<^sup>5\<^sup>3\<close> the unit in the last place is \<open>1 / K\<close> for a positive integer \<open>K\<close>, so
  every integer is a \<^verbatim>\<open>float64\<close> and rounding does not cross one.
\<close>

lemma float64_unit:
  assumes "x \<noteq> 0" "\<bar>x\<bar> < 2 ^ 53"
  obtains K :: int where "0 < K"
    and "float64 x = of_int (round_half_even (x * of_int K)) / of_int K"
proof -
  define k where "k = exponent \<bar>x\<bar> - 52"
  have k: "k \<le> 0"
    using exponent_le_52 [of "\<bar>x\<bar>"] assms by (simp add: k_def)
  define K :: int where "K = 2 ^ nat (- k)"
  have inv: "1 / pow2 k = of_int K"
    using pow2_inverse_int [OF k] by (simp add: K_def)
  have Kpos: "0 < K" by (simp add: K_def)
  have "pow2 k = 1 / (1 / pow2 k)"
    by simp
  then have p: "pow2 k = 1 / of_int K"
    by (simp only: inv)
  have "float64 x = of_int (round_half_even (x / pow2 k)) * pow2 k"
    using assms(1) by (simp add: float64_def k_def Let_def)
  then have "float64 x = of_int (round_half_even (x * of_int K)) / of_int K"
    by (simp add: p)
  with Kpos show ?thesis
    using that by blast
qed

lemma float64_ge_int:
  assumes "of_int m \<le> x" "\<bar>x\<bar> < 2 ^ 53"
  shows "of_int m \<le> float64 x"
proof (cases "x = 0")
  case True
  with assms show ?thesis by (simp add: float64_def)
next
  case False
  from float64_unit [OF False assms(2)] obtain K :: int where K: "0 < K"
    and f: "float64 x = of_int (round_half_even (x * of_int K)) / of_int K"
    by blast
  have "of_int (m * K) \<le> x * of_int K"
    using assms(1) K by (simp add: mult_right_mono)
  then have "m * K \<le> round_half_even (x * of_int K)"
    by (rule round_half_even_ge)
  then have "of_int (m * K) \<le> (of_int (round_half_even (x * of_int K)) :: real)"
    by (simp only: of_int_le_iff)
  then show ?thesis
    using K by (simp add: f pos_le_divide_eq)
qed

lemma float64_le_int:
  assumes "x \<le> of_int m" "\<bar>x\<bar> < 2 ^ 53"
  shows "float64 x \<le> of_int m"
proof (cases "x = 0")
  case True
  with assms show ?thesis by (simp add: float64_def)
next
  case False
  from float64_unit [OF False assms(2)] obtain K :: int where K: "0 < K"
    and f: "float64 x = of_int (round_half_even (x * of_int K)) / of_int K"
    by blast
  have "x * of_int K \<le> of_int (m * K)"
    using assms(1) K by (simp add: mult_right_mono)
  then have "round_half_even (x * of_int K) \<le> m * K"
    by (rule round_half_even_le)
  then have "(of_int (round_half_even (x * of_int K)) :: real) \<le> of_int (m * K)"
    by (simp only: of_int_le_iff)
  then show ?thesis
    using K by (simp add: f pos_divide_le_eq)
qed

lemma float64_of_int:
  assumes "\<bar>n\<bar> < 2 ^ 53"
  shows "float64 (of_int n) = of_int n"
proof -
  have b: "\<bar>real_of_int n\<bar> < 2 ^ 53"
    using assms by (metis of_int_abs of_int_less_numeral_power_cancel_iff)
  show ?thesis
    using float64_ge_int [of n "of_int n"] float64_le_int [of "of_int n" n] b by simp
qed

lemma Seconds_bounds:
  assumes "0 \<le> d" "d < 2 ^ 63"
  shows "of_int (d div Second) \<le> Seconds d" and "Seconds d \<le> of_int (d div Second + 1)"
proof -
  define sec where "sec = d div Second"
  define nsec where "nsec = d mod Second"
  have q: "quo d Second = sec" "rem d Second = nsec"
    using assms(1) by (simp_all add: quo_nonneg rem_nonneg sec_def nsec_def Second_def)
  have sec: "0 \<le> sec" "sec < 2 ^ 34"
    using assms by (simp_all add: sec_def Second_def pos_imp_zdiv_nonneg_iff div_less_iff_less_mult)
  have nsec: "0 \<le> nsec" "nsec < 1000000000"
    by (simp_all add: nsec_def Second_def)
  have f1: "float64 (of_int sec) = of_int sec"
    using sec by (intro float64_of_int) simp
  have f2: "float64 (of_int nsec) = of_int nsec"
    using nsec by (intro float64_of_int) simp
  define f3 where "f3 = float64 (real_of_int nsec / 1000000000)"
  have r: "0 \<le> real_of_int nsec / 1000000000" "real_of_int nsec / 1000000000 \<le> 1"
    using nsec by simp_all
  have f3: "0 \<le> f3" "f3 \<le> 1"
    using float64_ge_int [of 0 "real_of_int nsec / 1000000000"]
      float64_le_int [of "real_of_int nsec / 1000000000" 1] r
    by (simp_all add: f3_def)
  have S: "Seconds d = float64 (of_int sec + f3)"
    by (simp add: Seconds_def q f1 f2 f3_def)
  have rs: "real_of_int sec < 2 ^ 34"
    using sec(2) by (metis of_int_less_numeral_power_cancel_iff)
  have b: "\<bar>of_int sec + f3\<bar> < 2 ^ 53"
    using sec(1) rs f3 by simp
  show "of_int (d div Second) \<le> Seconds d"
    unfolding S sec_def [symmetric]
    using float64_ge_int [of sec "of_int sec + f3"] f3 b by simp
  show "Seconds d \<le> of_int (d div Second + 1)"
    unfolding S sec_def [symmetric]
    using float64_le_int [of "of_int sec + f3" "sec + 1"] f3 b by simp
qed

lemma Seconds_whole:
  assumes "0 \<le> d" "d < 2 ^ 63" "d mod Second = 0"
  shows "Seconds d = of_int (d div Second)"
proof -
  have q: "quo d Second = d div Second" "rem d Second = 0"
    using assms(1,3) by (simp_all add: quo_nonneg rem_nonneg Second_def)
  have sec: "0 \<le> d div Second" "d div Second < 2 ^ 34"
    using assms by (simp_all add: Second_def pos_imp_zdiv_nonneg_iff div_less_iff_less_mult)
  have f1: "float64 (of_int (d div Second)) = of_int (d div Second)"
    using sec by (intro float64_of_int) simp
  have z: "float64 0 = 0"
    by (simp add: float64_def)
  show ?thesis
    by (simp add: Seconds_def q z f1)
qed

text \<open>The seconds of a duration, converted to \<^verbatim>\<open>uint64\<close>.\<close>

lemma uint64_Seconds_bounds:
  assumes "0 \<le> d" "d < 2 ^ 63"
  shows "\<exists>p. uint64_of_float (Seconds d) = Some p \<and>
           nat (d div Second) \<le> p \<and> p \<le> nat (d div Second) + 1"
proof -
  note b = Seconds_bounds [OF assms]
  have s0: "0 \<le> d div Second"
    using assms(1) by (simp add: Second_def pos_imp_zdiv_nonneg_iff)
  have s1: "d div Second < 2 ^ 34"
    using assms by (simp add: Second_def div_less_iff_less_mult)
  have "real_of_int (d div Second + 1) < 2 ^ 64"
  proof -
    have "d div Second + 1 < 2 ^ 64" using s1 by simp
    then show ?thesis by (metis of_int_less_numeral_power_cancel_iff)
  qed
  with b(2) have up: "Seconds d < 2 ^ 64" by simp
  have lo: "0 \<le> Seconds d"
    using b(1) s0 by (meson of_int_0_le_iff order_trans)
  have fl1: "d div Second \<le> \<lfloor>Seconds d\<rfloor>"
    using b(1) by (simp add: le_floor_iff)
  have fl2: "\<lfloor>Seconds d\<rfloor> \<le> d div Second + 1"
    using b(2) by (metis floor_mono floor_of_int)
  have "uint64_of_float (Seconds d) = Some (nat \<lfloor>Seconds d\<rfloor>)"
    using lo up by (simp add: uint64_of_float_def)
  moreover have "nat (d div Second) \<le> nat \<lfloor>Seconds d\<rfloor>"
    using fl1 by simp
  moreover have "nat \<lfloor>Seconds d\<rfloor> \<le> nat (d div Second) + 1"
    using fl2 s0 by linarith
  ultimately show ?thesis by blast
qed

lemma uint64_Seconds_whole:
  assumes "0 \<le> d" "d < 2 ^ 63" "d mod Second = 0"
  shows "uint64_of_float (Seconds d) = Some (nat (d div Second))"
proof -
  have s0: "0 \<le> d div Second"
    using assms(1) by (simp add: Second_def pos_imp_zdiv_nonneg_iff)
  have s1: "d div Second < 2 ^ 34"
    using assms by (simp add: Second_def div_less_iff_less_mult)
  have "d div Second < 2 ^ 64" using s1 by simp
  then have "real_of_int (d div Second) < 2 ^ 64"
    by (metis of_int_less_numeral_power_cancel_iff)
  then show ?thesis
    using s0 by (simp add: Seconds_whole [OF assms] uint64_of_float_def)
qed

subsection \<open>Durations whose seconds are exact\<close>

text \<open>
  Below \<open>2\<^sup>2\<^sup>3\<close> the unit in the last place divides \<open>2\<^sup>-\<^sup>3\<^sup>0\<close>, so rounding does not
  cross a multiple of \<open>2\<^sup>-\<^sup>3\<^sup>0\<close>.
\<close>

lemma exponent_le_22:
  assumes "0 < x" "x < 2 ^ 23"
  shows "exponent x \<le> 22"
proof (cases "1 \<le> x")
  case True
  have "\<lfloor>x\<rfloor> < 2 ^ 23"
    using assms(2) by (simp add: floor_less_iff)
  then have "bitlen \<lfloor>x\<rfloor> \<le> 23"
    by (simp add: bitlen_le_iff_power)
  with True show ?thesis
    by (simp add: exponent_def)
next
  case False
  then show ?thesis
    using bitlen_nonneg [of "\<lceil>1 / x\<rceil> - 1"] by (simp add: exponent_def)
qed

lemma float64_unit_30:
  assumes "x \<noteq> 0" "\<bar>x\<bar> < 2 ^ 23"
  obtains K :: int where "0 < K"
    and "float64 x = of_int (round_half_even (x * of_int (2 ^ 30 * K))) / of_int (2 ^ 30 * K)"
proof -
  define k where "k = exponent \<bar>x\<bar> - 52"
  have k: "k \<le> - 30"
    using exponent_le_22 [of "\<bar>x\<bar>"] assms by (simp add: k_def)
  define K :: int where "K = 2 ^ (nat (- k) - 30)"
  have "nat (- k) = 30 + (nat (- k) - 30)"
    using k by simp
  then have "(2::int) ^ nat (- k) = 2 ^ 30 * K"
    unfolding K_def by (metis power_add)
  then have inv: "1 / pow2 k = of_int (2 ^ 30 * K)"
    using pow2_inverse_int [of k] k by simp
  have Kpos: "0 < K" by (simp add: K_def)
  have "pow2 k = 1 / (1 / pow2 k)"
    by simp
  then have p: "pow2 k = 1 / of_int (2 ^ 30 * K)"
    by (simp only: inv)
  have "float64 x = of_int (round_half_even (x / pow2 k)) * pow2 k"
    using assms(1) by (simp add: float64_def k_def Let_def)
  then have "float64 x = of_int (round_half_even (x * of_int (2 ^ 30 * K))) / of_int (2 ^ 30 * K)"
    by (simp add: p)
  with Kpos show ?thesis
    using that by blast
qed

lemma float64_le_grid:
  assumes "x * 2 ^ 30 \<le> of_int m" "\<bar>x\<bar> < 2 ^ 23"
  shows "float64 x * 2 ^ 30 \<le> of_int m"
proof (cases "x = 0")
  case True
  with assms show ?thesis by (simp add: float64_def)
next
  case False
  from float64_unit_30 [OF False assms(2)] obtain K :: int where K: "0 < K"
    and f: "float64 x = of_int (round_half_even (x * of_int (2 ^ 30 * K))) / of_int (2 ^ 30 * K)"
    by blast
  have "x * 2 ^ 30 * of_int K \<le> of_int m * of_int K"
    using assms(1) K by (intro mult_right_mono) simp_all
  then have "x * of_int (2 ^ 30 * K) \<le> of_int (m * K)"
    by (simp add: mult.assoc)
  then have "round_half_even (x * of_int (2 ^ 30 * K)) \<le> m * K"
    by (rule round_half_even_le)
  then have "(of_int (round_half_even (x * of_int (2 ^ 30 * K))) :: real) \<le> of_int (m * K)"
    by (simp only: of_int_le_iff)
  then have "float64 x * of_int (2 ^ 30 * K) \<le> of_int (m * K)"
    using K by (simp add: f)
  then have "(float64 x * 2 ^ 30) * of_int K \<le> of_int m * of_int K"
    by (simp add: mult.assoc)
  then show ?thesis
    using K by (simp only: mult_le_cancel_right)
qed

lemma Seconds_below_next:
  assumes "0 \<le> d" "d div Second < 2 ^ 23"
  shows "Seconds d < of_int (d div Second + 1)"
proof -
  define sec where "sec = d div Second"
  define nsec where "nsec = d mod Second"
  have q: "quo d Second = sec" "rem d Second = nsec"
    using assms(1) by (simp_all add: quo_nonneg rem_nonneg sec_def nsec_def Second_def)
  have sec: "0 \<le> sec" "sec < 2 ^ 23"
    using assms by (simp_all add: sec_def Second_def pos_imp_zdiv_nonneg_iff)
  have nsec: "0 \<le> nsec" "nsec \<le> 999999999"
    using pos_mod_bound [of 1000000000 d] by (simp_all add: nsec_def Second_def)
  have f1: "float64 (of_int sec) = of_int sec"
    using sec by (intro float64_of_int) simp
  have f2: "float64 (of_int nsec) = of_int nsec"
    using nsec by (intro float64_of_int) simp
  define f3 where "f3 = float64 (real_of_int nsec / 1000000000)"
  have r0: "0 \<le> real_of_int nsec / 1000000000" "real_of_int nsec / 1000000000 \<le> 1"
    using nsec by simp_all
  have "nsec * 1073741824 \<le> 999999999 * 1073741824"
    using nsec(2) by simp
  then have "nsec * 1073741824 \<le> 1073741823 * 1000000000"
    by simp
  then have "real_of_int (nsec * 1073741824) \<le> real_of_int (1073741823 * 1000000000)"
    by (simp only: of_int_le_iff)
  then have r1: "real_of_int nsec / 1000000000 * 2 ^ 30 \<le> of_int 1073741823"
    by simp
  have f3: "0 \<le> f3" "f3 * 2 ^ 30 \<le> of_int 1073741823"
    using float64_ge_int [of 0 "real_of_int nsec / 1000000000"]
      float64_le_grid [OF r1] r0
    by (simp_all add: f3_def)
  have f3': "f3 \<le> 1"
    using f3(2) by simp
  have S: "Seconds d = float64 (of_int sec + f3)"
    by (simp add: Seconds_def q f1 f2 f3_def)
  have rs: "real_of_int sec \<le> 2 ^ 23 - 1"
  proof -
    have "sec \<le> 2 ^ 23 - 1" using sec(2) by simp
    then have "real_of_int sec \<le> real_of_int (2 ^ 23 - 1)"
      by (simp only: of_int_le_iff)
    then show ?thesis by simp
  qed
  have "f3 < 1"
    using f3(2) by simp
  then have b: "\<bar>of_int sec + f3\<bar> < 2 ^ 23"
    using sec(1) rs f3(1) by simp
  have "(of_int sec + f3) * 2 ^ 30 \<le> of_int (sec * 2 ^ 30 + 1073741823)"
    using f3(2) by (simp add: distrib_right)
  from float64_le_grid [OF this b]
  have "Seconds d * 2 ^ 30 \<le> of_int (sec * 2 ^ 30 + 1073741823)"
    by (simp only: S)
  also have "\<dots> < of_int (sec + 1) * 2 ^ 30"
    by (simp add: distrib_right)
  finally show ?thesis
    by (simp add: sec_def)
qed

lemma uint64_Seconds_floor:
  assumes "0 \<le> d" "d div Second < 2 ^ 23"
  shows "uint64_of_float (Seconds d) = Some (nat (d div Second))"
proof -
  have d: "d < 2 ^ 63"
  proof -
    have "d < (d div Second + 1) * Second"
      using div_mult_mod_eq [of d Second] pos_mod_bound [of Second d]
      by (simp add: Second_def distrib_right)
    also have "\<dots> \<le> 2 ^ 23 * Second"
      using assms(2) by (intro mult_right_mono) (simp_all add: Second_def)
    also have "\<dots> < 2 ^ 63"
      by (simp add: Second_def)
    finally show ?thesis .
  qed
  note b = Seconds_bounds(1) [OF assms(1) d] Seconds_below_next [OF assms]
  have s0: "0 \<le> d div Second"
    using assms(1) by (simp add: Second_def pos_imp_zdiv_nonneg_iff)
  have lo: "0 \<le> Seconds d"
    using b(1) s0 by (meson of_int_0_le_iff order_trans)
  have "real_of_int (d div Second + 1) < 2 ^ 64"
  proof -
    have "d div Second + 1 < 2 ^ 64" using assms(2) by simp
    then show ?thesis by (metis of_int_less_numeral_power_cancel_iff)
  qed
  with b(2) have up: "Seconds d < 2 ^ 64" by simp
  have "\<lfloor>Seconds d\<rfloor> = d div Second"
    using b by (simp add: floor_unique)
  then show ?thesis
    using lo up by (simp add: uint64_of_float_def)
qed

subsection \<open>A duration whose seconds round up\<close>

lemma bitlen_numeral: "bitlen (numeral n) = (if (0::int) < numeral n then bitlen (numeral n div 2) + 1 else 0)"
  by (rule compute_bitlen)

lemma bitlen_1: "bitlen 1 = 1"
  by (simp add: compute_bitlen)

lemma float64_eval:
  assumes "x \<noteq> 0" "exponent \<bar>x\<bar> = e" "round_half_even (x / pow2 (e - 52)) = n"
  shows "float64 x = of_int n * pow2 (e - 52)"
  using assms by (simp add: float64_def)

lemma float64_fraction: "float64 (999999999 / 1000000000) = 9007199245733793 / 9007199254740992"
proof -
  have e: "exponent \<bar>999999999 / 1000000000\<bar> = - 1"
    by (simp add: exponent_def bitlen_1)
  have r: "round_half_even (999999999 / 1000000000 / pow2 (- 1 - 52)) = 9007199245733793"
    by (simp add: round_half_even_def pow2_def Let_def)
  show ?thesis
    using float64_eval [OF _ e r] by (simp add: pow2_def)
qed

lemma float64_sum:
  "float64 (16777216 + 9007199245733793 / 9007199254740992) = 16777217"
proof -
  have e: "exponent \<bar>16777216 + 9007199245733793 / 9007199254740992\<bar> = 24"
    by (simp add: exponent_def bitlen_numeral bitlen_1)
  have r: "round_half_even ((16777216 + 9007199245733793 / 9007199254740992) / pow2 (24 - 52))
           = 4503599895805952"
    by (simp add: round_half_even_def pow2_def Let_def)
  show ?thesis
    using float64_eval [OF _ e r] by (simp add: pow2_def)
qed

lemma Seconds_rounds_up: "Seconds 16777216999999999 = 16777217"
proof -
  have q: "quo 16777216999999999 Second = 16777216" "rem 16777216999999999 Second = 999999999"
    by (simp_all add: quo_nonneg rem_nonneg Second_def)
  have f1: "float64 (of_int 16777216) = of_int 16777216"
    by (rule float64_of_int) simp
  have f2: "float64 (of_int 999999999) = of_int 999999999"
    by (rule float64_of_int) simp
  have "Seconds 16777216999999999 =
        float64 (float64 (of_int 16777216) + float64 (float64 (of_int 999999999) / 1000000000))"
    by (simp only: Seconds_def q Let_def)
  also have "\<dots> = float64 (16777216 + float64 (999999999 / 1000000000))"
    by (simp only: f1 f2) simp
  also have "\<dots> = 16777217"
    by (simp only: float64_fraction float64_sum)
  finally show ?thesis .
qed

section \<open>The partition interval of the flows tables\<close>

lemma Contains_prefix: "HasPrefix s sub \<Longrightarrow> Contains s sub"
  by (cases s) (simp_all add: HasPrefix_def)

lemma Contains_append: "Contains (a @ sub @ b) sub"
proof (induction a)
  case Nil
  show ?case by (simp add: Contains_prefix HasPrefix_def)
next
  case (Cons c a)
  then show ?case by simp
qed

lemma createFlowsStatement_partition:
  "Contains (createFlowsStatement p) (''\<newline>'' @ partitionBy p @ ''\<newline>'')"
proof -
  have "createFlowsStatement p =
        (''\<newline>CREATE TABLE flows (\<newline>'' @ flowsSchema @ ''\<newline>)\<newline>ENGINE = MergeTree'') @
        (''\<newline>'' @ partitionBy p @ ''\<newline>'') @
        ''ORDER BY (TimeReceived, ExporterAddress, InIfName, OutIfName)''"
    by (simp add: createFlowsStatement_def partitionBy_def)
  then show ?thesis
    by (simp only: Contains_append)
qed

lemma createConsolidatedStatement_partition:
  "Contains (createConsolidatedStatement name p) (''\<newline>'' @ partitionBy p @ ''\<newline>'')"
proof -
  have "\<exists>a b. createConsolidatedStatement name p = a @ (''\<newline>'' @ partitionBy p @ ''\<newline>'') @ b"
    unfolding createConsolidatedStatement_def partitionBy_def
    by (rule exI [of _ "''\<newline>CREATE TABLE '' @ name @ '' (\<newline>'' @ partialSchema consolidatedColumnsRemoved @
           ''\<newline>)\<newline>ENGINE = SummingMergeTree((Bytes, Packets))''"], rule exI) simp
  then show ?thesis
    using Contains_append by metis
qed

lemma partition_interval_bounds:
  assumes "0 \<le> TTL resolution" "TTL resolution < 2 ^ 63" "0 < MaxPartitions config"
  shows "\<exists>p. partition_interval config resolution = Inr p \<and>
           nat (TTL resolution div MaxPartitions config div Second) \<le> p \<and>
           p \<le> nat (TTL resolution div MaxPartitions config div Second) + 1"
proof -
  define q where "q = TTL resolution div MaxPartitions config"
  have d: "div64 (TTL resolution) (MaxPartitions config) = Some q"
    using assms by (simp add: div64_nonneg q_def)
  have q: "0 \<le> q" "q < 2 ^ 63"
  proof -
    show "0 \<le> q"
      using assms by (simp add: q_def pos_imp_zdiv_nonneg_iff)
    have "q \<le> TTL resolution"
      using zdiv_mono2 [of "TTL resolution" 1 "MaxPartitions config"] assms by (simp add: q_def)
    then show "q < 2 ^ 63"
      using assms(2) by simp
  qed
  from uint64_Seconds_bounds [OF q] obtain p where
    "uint64_of_float (Seconds q) = Some p" "nat (q div Second) \<le> p" "p \<le> nat (q div Second) + 1"
    by blast
  then show ?thesis
    by (simp add: partition_interval_def d q_def)
qed

lemma partition_interval_whole:
  assumes "0 \<le> TTL resolution" "TTL resolution < 2 ^ 63" "0 < MaxPartitions config"
    and "TTL resolution div MaxPartitions config mod Second = 0"
  shows "partition_interval config resolution =
         Inr (nat (TTL resolution div MaxPartitions config div Second))"
proof -
  define q where "q = TTL resolution div MaxPartitions config"
  have d: "div64 (TTL resolution) (MaxPartitions config) = Some q"
    using assms by (simp add: div64_nonneg q_def)
  have q: "0 \<le> q" "q < 2 ^ 63"
  proof -
    show "0 \<le> q"
      using assms by (simp add: q_def pos_imp_zdiv_nonneg_iff)
    have "q \<le> TTL resolution"
      using zdiv_mono2 [of "TTL resolution" 1 "MaxPartitions config"] assms by (simp add: q_def)
    then show "q < 2 ^ 63"
      using assms(2) by simp
  qed
  have "q mod Second = 0"
    using assms(4) by (simp add: q_def)
  from uint64_Seconds_whole [OF q this] show ?thesis
    by (simp add: partition_interval_def d q_def)
qed

lemma partition_interval_example_flows:
  "partition_interval \<lparr>MaxPartitions = 50, Kafka = k\<rparr> \<lparr>Interval = 0, TTL = 15 * 86400 * Second\<rparr> = Inr 25920"
  by (subst partition_interval_whole) (simp_all add: Second_def)

lemma partition_interval_floor:
  assumes "0 \<le> TTL resolution" "TTL resolution < 2 ^ 63" "0 < MaxPartitions config"
    and "TTL resolution div MaxPartitions config div Second < 2 ^ 23"
  shows "partition_interval config resolution =
         Inr (nat (TTL resolution div MaxPartitions config div Second))"
proof -
  define q where "q = TTL resolution div MaxPartitions config"
  have d: "div64 (TTL resolution) (MaxPartitions config) = Some q"
    using assms by (simp add: div64_nonneg q_def)
  have q: "0 \<le> q"
    using assms by (simp add: q_def pos_imp_zdiv_nonneg_iff)
  have "q div Second < 2 ^ 23"
    using assms(4) by (simp add: q_def)
  from uint64_Seconds_floor [OF q this] show ?thesis
    by (simp add: partition_interval_def d q_def)
qed

lemma partition_interval_100s_by_7:
  "partition_interval \<lparr>MaxPartitions = 7, Kafka = k\<rparr> \<lparr>Interval = 0, TTL = 100 * Second\<rparr> = Inr 14"
  by (subst partition_interval_floor) (simp_all add: Second_def)

lemma floor_seconds:
  assumes "0 < m"
  shows "t div (m * Second) = t div m div Second"
  using assms by (simp add: zdiv_zmult2_eq Second_def)

lemma CreateFlowsTable_base:
  assumes "partition_interval config resolution = Inr p" "Interval resolution = 0"
  shows "migrationsStepCreateFlowsTable config resolution =
         Inr \<lparr>CheckQuery = tableExistsQuery, Args = [''flows''],
              Do = (\<lambda>c. Exec c (createFlowsStatement p))\<rparr>"
  using assms by (simp add: migrationsStepCreateFlowsTable_def)

lemma CreateFlowsTable_consolidated:
  assumes "partition_interval config resolution = Inr p" "Interval resolution \<noteq> 0"
  shows "\<exists>step. migrationsStepCreateFlowsTable config resolution = Inr step \<and>
           CheckQuery step = tableExistsQuery \<and>
           Args step = [''flows_'' @ Duration_String (Interval resolution)] \<and>
           (\<forall>c. Do step c =
              (case Exec c (''DROP TABLE IF EXISTS flows_'' @ Duration_String (Interval resolution) @
                              ''_consumer SYNC'') of
                 Inl err \<Rightarrow> Inl (CannotDropFlowsConsumerTable (Interval resolution) err)
               | Inr c' \<Rightarrow>
                   Exec c' (createConsolidatedStatement
                     (''flows_'' @ Duration_String (Interval resolution)) p)))"
  using assms by (simp add: migrationsStepCreateFlowsTable_def Let_def cong: sum.case_cong)

text \<open>
  For a resolution with \<open>0 \<le> TTL\<close> and \<open>MaxPartitions \<ge> 1\<close> the step
  \<open>CreateFlowsTable\<close> is built, and the table it creates is partitioned by
  \<open>toYYYYMMDDhhmmss(toStartOfInterval(TimeReceived, INTERVAL p second))\<close> for the
  interval \<open>p\<close> the step computes. That interval is the floor of the quotient
  \<open>TTL / MaxPartitions\<close> in whole seconds when the quotient is a whole number of seconds,
  and when it is below \<open>2\<^sup>2\<^sup>3\<close> seconds (97 days).
\<close>

lemma CreateFlowsTable_partition_interval:
  assumes "0 \<le> TTL resolution" "TTL resolution < 2 ^ 63" "0 < MaxPartitions config"
  shows "\<exists>p step.
           partition_interval config resolution = Inr p \<and>
           (TTL resolution div MaxPartitions config mod Second = 0 \<longrightarrow>
              p = nat (TTL resolution div (MaxPartitions config * Second))) \<and>
           (TTL resolution div (MaxPartitions config * Second) < 2 ^ 23 \<longrightarrow>
              p = nat (TTL resolution div (MaxPartitions config * Second))) \<and>
           migrationsStepCreateFlowsTable config resolution = Inr step \<and>
           (Interval resolution = 0 \<longrightarrow>
              Args step = [''flows''] \<and> (\<forall>c. Do step c = Exec c (createFlowsStatement p))) \<and>
           (Interval resolution \<noteq> 0 \<longrightarrow>
              Args step = [''flows_'' @ Duration_String (Interval resolution)] \<and>
              (\<forall>c. Do step c =
                 (case Exec c (''DROP TABLE IF EXISTS flows_'' @ Duration_String (Interval resolution) @
                                 ''_consumer SYNC'') of
                    Inl err \<Rightarrow> Inl (CannotDropFlowsConsumerTable (Interval resolution) err)
                  | Inr c' \<Rightarrow>
                      Exec c' (createConsolidatedStatement
                        (''flows_'' @ Duration_String (Interval resolution)) p)))) \<and>
           Contains (createFlowsStatement p) (''\<newline>'' @ partitionBy p @ ''\<newline>'') \<and>
           (\<forall>name. Contains (createConsolidatedStatement name p)
                     (''\<newline>'' @ partitionBy p @ ''\<newline>''))"
proof -
  note fs = floor_seconds [OF assms(3), of "TTL resolution"]
  from partition_interval_bounds [OF assms] obtain p where
    p: "partition_interval config resolution = Inr p"
    by blast
  have whole: "p = nat (TTL resolution div (MaxPartitions config * Second))"
    if "TTL resolution div MaxPartitions config mod Second = 0"
    using partition_interval_whole [OF assms that] p by (simp add: fs)
  have below: "p = nat (TTL resolution div (MaxPartitions config * Second))"
    if "TTL resolution div (MaxPartitions config * Second) < 2 ^ 23"
    using partition_interval_floor [OF assms] that p by (simp add: fs)
  show ?thesis
  proof (cases "Interval resolution = 0")
    case True
    show ?thesis
      using p whole below True CreateFlowsTable_base [OF p True]
        createFlowsStatement_partition [of p] createConsolidatedStatement_partition [of _ p]
      by (intro exI [of _ p] exI [of _ "\<lparr>CheckQuery = tableExistsQuery, Args = [''flows''],
              Do = (\<lambda>c. Exec c (createFlowsStatement p))\<rparr>"]) simp
  next
    case False
    from CreateFlowsTable_consolidated [OF p False] obtain step where
      "migrationsStepCreateFlowsTable config resolution = Inr step"
      "Args step = [''flows_'' @ Duration_String (Interval resolution)]"
      "\<forall>c. Do step c =
              (case Exec c (''DROP TABLE IF EXISTS flows_'' @ Duration_String (Interval resolution) @
                              ''_consumer SYNC'') of
                 Inl err \<Rightarrow> Inl (CannotDropFlowsConsumerTable (Interval resolution) err)
               | Inr c' \<Rightarrow>
                   Exec c' (createConsolidatedStatement
                     (''flows_'' @ Duration_String (Interval resolution)) p))"
      by blast
    then show ?thesis
      using p whole below False
        createFlowsStatement_partition [of p] createConsolidatedStatement_partition [of _ p]
      by (intro exI [of _ p] exI [of _ step]) simp
  qed
qed

text \<open>
  The partition intervals of the resolutions \<open>{0, 15d}\<close>, \<open>{1m, 7d}\<close> and \<open>{1h, 365d}\<close>
  with \<open>MaxPartitions = 50\<close>, and of 100 seconds in 7 partitions.
\<close>

lemma partition_interval_examples:
  "partition_interval \<lparr>MaxPartitions = 50, Kafka = \<lparr>Brokers = [''kafka:9092''], Topic = ''flows'', Consumers = 1\<rparr>\<rparr>
     \<lparr>Interval = 0, TTL = 15 * 86400 * 1000000000\<rparr> = Inr 25920 \<and>
   partition_interval \<lparr>MaxPartitions = 50, Kafka = \<lparr>Brokers = [''kafka:9092''], Topic = ''flows'', Consumers = 1\<rparr>\<rparr>
     \<lparr>Interval = 60 * 1000000000, TTL = 7 * 86400 * 1000000000\<rparr> = Inr 12096 \<and>
   partition_interval \<lparr>MaxPartitions = 50, Kafka = \<lparr>Brokers = [''kafka:9092''], Topic = ''flows'', Consumers = 1\<rparr>\<rparr>
     \<lparr>Interval = 3600 * 1000000000, TTL = 365 * 86400 * 1000000000\<rparr> = Inr 630720 \<and>
   partition_interval \<lparr>MaxPartitions = 7, Kafka = \<lparr>Brokers = [''kafka:9092''], Topic = ''flows'', Consumers = 1\<rparr>\<rparr>
     \<lparr>Interval = 0, TTL = 100 * 1000000000\<rparr> = Inr 14"
proof -
  define K where "K = \<lparr>Brokers = [''kafka:9092''], Topic = ''flows'', Consumers = 1\<rparr>"
  have ex: "partition_interval \<lparr>MaxPartitions = m, Kafka = K\<rparr> R = Inr (nat (TTL R div (m * Second)))"
    if "0 \<le> TTL R" "TTL R < 2 ^ 63" "0 < m" "TTL R div (m * Second) < 2 ^ 23" for R m
  proof -
    have m: "0 < MaxPartitions \<lparr>MaxPartitions = m, Kafka = K\<rparr>"
      using that(3) by simp
    from CreateFlowsTable_partition_interval [OF that(1,2) m] obtain p where
      "partition_interval \<lparr>MaxPartitions = m, Kafka = K\<rparr> R = Inr p"
      "TTL R div (MaxPartitions \<lparr>MaxPartitions = m, Kafka = K\<rparr> * Second) < 2 ^ 23 \<longrightarrow>
         p = nat (TTL R div (MaxPartitions \<lparr>MaxPartitions = m, Kafka = K\<rparr> * Second))"
      by blast
    with that(4) show ?thesis
      by simp
  qed
  have "partition_interval \<lparr>MaxPartitions = 50, Kafka = K\<rparr> \<lparr>Interval = 0, TTL = 15 * 86400 * 1000000000\<rparr> = Inr 25920"
    by (subst ex) (simp_all add: Second_def)
  moreover have "partition_interval \<lparr>MaxPartitions = 50, Kafka = K\<rparr> \<lparr>Interval = 60 * 1000000000, TTL = 7 * 86400 * 1000000000\<rparr> = Inr 12096"
    by (subst ex) (simp_all add: Second_def)
  moreover have "partition_interval \<lparr>MaxPartitions = 50, Kafka = K\<rparr> \<lparr>Interval = 3600 * 1000000000, TTL = 365 * 86400 * 1000000000\<rparr> = Inr 630720"
    by (subst ex) (simp_all add: Second_def)
  moreover have "partition_interval \<lparr>MaxPartitions = 7, Kafka = K\<rparr> \<lparr>Interval = 0, TTL = 100 * 1000000000\<rparr> = Inr 14"
    by (subst ex) (simp_all add: Second_def)
  ultimately show ?thesis
    by (simp add: K_def)
qed

lemma partition_interval_rounds_up:
  assumes "TTL resolution div MaxPartitions config = 16777216999999999"
    and "0 \<le> TTL resolution" "TTL resolution < 2 ^ 63" "0 < MaxPartitions config"
  shows "partition_interval config resolution = Inr 16777217"
proof -
  have "div64 (TTL resolution) (MaxPartitions config) = Some 16777216999999999"
    using div64_nonneg [OF assms(2-4)] assms(1) by simp
  then show ?thesis
    by (simp add: partition_interval_def Seconds_rounds_up uint64_of_float_def)
qed

lemma partitionBy_16777217:
  "partitionBy 16777217 =
     ''PARTITION BY toYYYYMMDDhhmmss(toStartOfInterval(TimeReceived, INTERVAL 16777217 second))''"
  by (simp add: partitionBy_def fmt_uint.simps digit_def)

text \<open>
  Claim C3 says that the partition expression of a table created by \<open>CreateFlowsTable\<close>
  is \<open>toYYYYMMDDhhmmss(toStartOfInterval(TimeReceived, INTERVAL p second))\<close> with \<open>p\<close> the
  floor of \<open>TTL / MaxPartitions\<close> in whole seconds. For the resolution with
  \<open>Interval = 0\<close> and \<open>TTL = 16777216999999999 ns\<close> and \<open>MaxPartitions = 1\<close> that floor is
  \<open>16777216\<close>, and the step creates the table \<open>flows\<close> with
  \<open>INTERVAL 16777217 second\<close>: the \<^verbatim>\<open>float64\<close> sum of \<^verbatim>\<open>Duration.Seconds\<close> rounds
  \<open>16777216.999999999\<close> up to \<open>16777217\<close> before the conversion to \<^verbatim>\<open>uint64\<close> truncates.
\<close>

theorem CreateFlowsTable_partition_interval_rounds_up:
  "partition_interval
     \<lparr>MaxPartitions = 1, Kafka = \<lparr>Brokers = [''kafka:9092''], Topic = ''flows'', Consumers = 1\<rparr>\<rparr>
     \<lparr>Interval = 0, TTL = 16777216999999999\<rparr> = Inr 16777217 \<and>
   nat (16777216999999999 div (1 * Second)) = 16777216 \<and>
   migrationsStepCreateFlowsTable
     \<lparr>MaxPartitions = 1, Kafka = \<lparr>Brokers = [''kafka:9092''], Topic = ''flows'', Consumers = 1\<rparr>\<rparr>
     \<lparr>Interval = 0, TTL = 16777216999999999\<rparr> =
   Inr \<lparr>CheckQuery = tableExistsQuery, Args = [''flows''],
        Do = (\<lambda>c. Exec c (createFlowsStatement 16777217))\<rparr> \<and>
   Contains (createFlowsStatement 16777217)
     (''\<newline>PARTITION BY toYYYYMMDDhhmmss(toStartOfInterval(TimeReceived, INTERVAL 16777217 second))\<newline>'')"
proof -
  define C where "C = \<lparr>MaxPartitions = 1, Kafka = \<lparr>Brokers = [''kafka:9092''], Topic = ''flows'', Consumers = 1\<rparr>\<rparr>"
  define R where "R = \<lparr>Interval = 0, TTL = 16777216999999999\<rparr>"
  have p: "partition_interval C R = Inr 16777217"
    by (rule partition_interval_rounds_up) (simp_all add: C_def R_def)
  have i: "Interval R = 0"
    by (simp add: R_def)
  have "Contains (createFlowsStatement 16777217) (''\<newline>'' @ partitionBy 16777217 @ ''\<newline>'')"
    by (rule createFlowsStatement_partition)
  then have c: "Contains (createFlowsStatement 16777217)
     (''\<newline>PARTITION BY toYYYYMMDDhhmmss(toStartOfInterval(TimeReceived, INTERVAL 16777217 second))\<newline>'')"
    by (simp add: partitionBy_16777217)
  show ?thesis
    using p CreateFlowsTable_base [OF p i] c unfolding C_def R_def
    by (simp add: Second_def)
qed

lemma Seconds_0: "Seconds 0 = 0"
  by (simp add: Seconds_def quo_def rem_def float64_def)

lemma partition_interval_TTL_0:
  assumes "TTL resolution = 0" "MaxPartitions config \<noteq> 0"
  shows "partition_interval config resolution = Inr 0"
  using assms
  by (simp add: partition_interval_def div64_def quo_def wrap64_def Seconds_0 uint64_of_float_def)

text \<open>
  If a resolution has \<open>TTL = 0\<close> (and \<open>MaxPartitions\<close> is not zero), \<open>CreateFlowsTable\<close>
  computes a partition interval of \<open>0\<close> and emits
  \<open>PARTITION BY toYYYYMMDDhhmmss(toStartOfInterval(TimeReceived, INTERVAL 0 second))\<close>,
  for the flows table and for a consolidated table.
\<close>

lemma CreateFlowsTable_TTL_zero:
  assumes "TTL resolution = 0" "MaxPartitions config \<noteq> 0"
  shows "partition_interval config resolution = Inr 0 \<and>
         partitionBy 0 =
           ''PARTITION BY toYYYYMMDDhhmmss(toStartOfInterval(TimeReceived, INTERVAL 0 second))'' \<and>
         (\<exists>step. migrationsStepCreateFlowsTable config resolution = Inr step \<and>
            (Interval resolution = 0 \<longrightarrow> (\<forall>c. Do step c = Exec c (createFlowsStatement 0))) \<and>
            (Interval resolution \<noteq> 0 \<longrightarrow>
               (\<forall>c. Do step c =
                  (case Exec c (''DROP TABLE IF EXISTS flows_'' @ Duration_String (Interval resolution) @
                                  ''_consumer SYNC'') of
                     Inl err \<Rightarrow> Inl (CannotDropFlowsConsumerTable (Interval resolution) err)
                   | Inr c' \<Rightarrow>
                       Exec c' (createConsolidatedStatement
                         (''flows_'' @ Duration_String (Interval resolution)) 0))))) \<and>
         Contains (createFlowsStatement 0) (''\<newline>'' @ partitionBy 0 @ ''\<newline>'') \<and>
         (\<forall>name. Contains (createConsolidatedStatement name 0)
                   (''\<newline>'' @ partitionBy 0 @ ''\<newline>''))"
proof -
  note p = partition_interval_TTL_0 [OF assms]
  have pb: "partitionBy 0 =
      ''PARTITION BY toYYYYMMDDhhmmss(toStartOfInterval(TimeReceived, INTERVAL 0 second))''"
    by (simp add: partitionBy_def fmt_uint.simps digit_def)
  have step: "\<exists>step. migrationsStepCreateFlowsTable config resolution = Inr step \<and>
            (Interval resolution = 0 \<longrightarrow> (\<forall>c. Do step c = Exec c (createFlowsStatement 0))) \<and>
            (Interval resolution \<noteq> 0 \<longrightarrow>
               (\<forall>c. Do step c =
                  (case Exec c (''DROP TABLE IF EXISTS flows_'' @ Duration_String (Interval resolution) @
                                  ''_consumer SYNC'') of
                     Inl err \<Rightarrow> Inl (CannotDropFlowsConsumerTable (Interval resolution) err)
                   | Inr c' \<Rightarrow>
                       Exec c' (createConsolidatedStatement
                         (''flows_'' @ Duration_String (Interval resolution)) 0))))"
  proof (cases "Interval resolution = 0")
    case True
    then show ?thesis
      using CreateFlowsTable_base [OF p True] by simp
  next
    case False
    then show ?thesis
      using CreateFlowsTable_consolidated [OF p False] by auto
  qed
  show ?thesis
    using p pb step createFlowsStatement_partition [of 0]
      createConsolidatedStatement_partition [of _ 0]
    by (intro conjI allI impI) blast+
qed

text \<open>
  Claim C10 says, besides the case \<open>TTL = 0\<close>, that in general the emitted interval is the
  floor of the duration quotient, truncated to whole seconds. For the resolution with
  \<open>Interval = 1m\<close> and \<open>TTL = 33554433999999998 ns\<close> and \<open>MaxPartitions = 2\<close> the duration
  quotient is \<open>16777216999999999 ns\<close>, whose floor in whole seconds is \<open>16777216\<close>, and
  the interval \<open>CreateFlowsTable\<close> computes and emits is \<open>16777217\<close>: the \<^verbatim>\<open>float64\<close>
  sum of \<^verbatim>\<open>Duration.Seconds\<close> rounds up before the conversion to \<^verbatim>\<open>uint64\<close> truncates.
  With \<open>TTL = 0\<close> the same configuration gives the interval \<open>0\<close>.
\<close>

theorem CreateFlowsTable_TTL_quotient_rounds_up:
  "partition_interval
     \<lparr>MaxPartitions = 2, Kafka = \<lparr>Brokers = [''kafka:9092''], Topic = ''flows'', Consumers = 1\<rparr>\<rparr>
     \<lparr>Interval = 60 * 1000000000, TTL = 33554433999999998\<rparr> = Inr 16777217 \<and>
   33554433999999998 div (2::int) = 16777216999999999 \<and>
   nat (33554433999999998 div (2 * Second)) = 16777216 \<and>
   (\<exists>step. migrationsStepCreateFlowsTable
        \<lparr>MaxPartitions = 2, Kafka = \<lparr>Brokers = [''kafka:9092''], Topic = ''flows'', Consumers = 1\<rparr>\<rparr>
        \<lparr>Interval = 60 * 1000000000, TTL = 33554433999999998\<rparr> = Inr step \<and>
      Args step = [''flows_1m0s''] \<and>
      (\<forall>c. Do step c =
         (case Exec c ''DROP TABLE IF EXISTS flows_1m0s_consumer SYNC'' of
            Inl err \<Rightarrow> Inl (CannotDropFlowsConsumerTable (60 * 1000000000) err)
          | Inr c' \<Rightarrow> Exec c' (createConsolidatedStatement ''flows_1m0s'' 16777217)))) \<and>
   Contains (createConsolidatedStatement ''flows_1m0s'' 16777217)
     (''\<newline>PARTITION BY toYYYYMMDDhhmmss(toStartOfInterval(TimeReceived, INTERVAL 16777217 second))\<newline>'') \<and>
   partition_interval
     \<lparr>MaxPartitions = 2, Kafka = \<lparr>Brokers = [''kafka:9092''], Topic = ''flows'', Consumers = 1\<rparr>\<rparr>
     \<lparr>Interval = 60 * 1000000000, TTL = 0\<rparr> = Inr 0"
proof -
  define C where "C = \<lparr>MaxPartitions = 2, Kafka = \<lparr>Brokers = [''kafka:9092''], Topic = ''flows'', Consumers = 1\<rparr>\<rparr>"
  define R where "R = \<lparr>Interval = 60 * 1000000000, TTL = 33554433999999998\<rparr>"
  have p: "partition_interval C R = Inr 16777217"
    by (rule partition_interval_rounds_up) (simp_all add: C_def R_def)
  have i: "Interval R \<noteq> 0"
    by (simp add: R_def)
  have n: "Duration_String (Interval R) = ''1m0s''"
    by (simp add: R_def duration_string_eval)
  have iR: "Interval R = 60 * 1000000000"
    by (simp add: R_def)
  from CreateFlowsTable_consolidated [OF p i] obtain step where
    st: "migrationsStepCreateFlowsTable C R = Inr step"
      "Args step = [''flows_'' @ Duration_String (Interval R)]"
      "\<forall>c. Do step c =
              (case Exec c (''DROP TABLE IF EXISTS flows_'' @ Duration_String (Interval R) @
                              ''_consumer SYNC'') of
                 Inl err \<Rightarrow> Inl (CannotDropFlowsConsumerTable (Interval R) err)
               | Inr c' \<Rightarrow>
                   Exec c' (createConsolidatedStatement
                     (''flows_'' @ Duration_String (Interval R)) 16777217))"
    by blast
  have a: "Args step = [''flows_1m0s'']"
    using st(2) by (simp add: n)
  have d: "Do step c =
         (case Exec c ''DROP TABLE IF EXISTS flows_1m0s_consumer SYNC'' of
            Inl err \<Rightarrow> Inl (CannotDropFlowsConsumerTable (60 * 1000000000) err)
          | Inr c' \<Rightarrow> Exec c' (createConsolidatedStatement ''flows_1m0s'' 16777217))" for c
    using st(3) unfolding n by (simp add: iR cong: sum.case_cong)
  have s: "\<exists>step. migrationsStepCreateFlowsTable C R = Inr step \<and>
      Args step = [''flows_1m0s''] \<and>
      (\<forall>c. Do step c =
         (case Exec c ''DROP TABLE IF EXISTS flows_1m0s_consumer SYNC'' of
            Inl err \<Rightarrow> Inl (CannotDropFlowsConsumerTable (60 * 1000000000) err)
          | Inr c' \<Rightarrow> Exec c' (createConsolidatedStatement ''flows_1m0s'' 16777217)))"
    using st(1) a d by blast
  have "Contains (createConsolidatedStatement ''flows_1m0s'' 16777217)
          (''\<newline>'' @ partitionBy 16777217 @ ''\<newline>'')"
    by (rule createConsolidatedStatement_partition)
  then have c: "Contains (createConsolidatedStatement ''flows_1m0s'' 16777217)
     (''\<newline>PARTITION BY toYYYYMMDDhhmmss(toStartOfInterval(TimeReceived, INTERVAL 16777217 second))\<newline>'')"
    by (simp add: partitionBy_16777217)
  have z: "partition_interval C \<lparr>Interval = 60 * 1000000000, TTL = 0\<rparr> = Inr 0"
    by (rule partition_interval_TTL_0) (simp_all add: C_def)
  have f: "nat (33554433999999998 div (2 * Second)) = 16777216"
    by (simp add: Second_def)
  show ?thesis
    using p s c z f unfolding C_def R_def by simp
qed

section \<open>Check queries\<close>

lemma QueryRow_SELECT_1: "QueryRow db ''SELECT 1'' [] = Row 1"
  by (simp add: QueryRow_def)

lemma QueryRow_tableExists:
  "QueryRow db tableExistsQuery [name] = (if name \<in> dom db then Row 1 else NoRow)"
  by (auto simp: QueryRow_def tableExistsQuery_def split: option.splits)

lemma QueryRow_sortingKeyHas:
  "QueryRow db sortingKeyHasQuery [name, col] = (if in_sort_key db name col then Row 1 else NoRow)"
  by (auto simp: QueryRow_def tableExistsQuery_def sortingKeyHasQuery_def in_sort_key_def
      split: option.splits)

lemma check_null: "check nullMigrationStep db = Row 1"
  by (simp add: check_def nullMigrationStep_def QueryRow_SELECT_1)

section \<open>Adding columns\<close>

lemma addColumnsAndUpdateSortingKey_flows:
  "addColumnsAndUpdateSortingKey c ''flows'' after columns = Inr (addColumnsAfter after columns)"
  by (simp add: addColumnsAndUpdateSortingKey_def)

lemma addColumnsAndUpdateSortingKey_other:
  assumes "table_name \<noteq> ''flows''" "query_error c = None" "tables c table_name = Some t"
  shows "addColumnsAndUpdateSortingKey c table_name after columns =
         Inr (addColumnsAfter after columns @ '', MODIFY ORDER BY ('' @ sorting_key t @ '', '' @
                Join (map columnSpecToName columns) '', '' @ '')'')"
  using assms by (simp add: addColumnsAndUpdateSortingKey_def appendToSortingKey_def)

text \<open>
  Claim C7. For every table other than \<open>flows\<close> whose sorting key the connection can
  read, and every list of column specs, \<open>addColumnsAndUpdateSortingKey\<close> produces the
  \<open>ADD COLUMN\<close> clauses followed by a \<open>MODIFY ORDER BY\<close> part that is the table's
  current sorting key, verbatim, followed by the new columns' names in argument order:
  the existing key is kept as a prefix and extended only by appending.
\<close>

theorem addColumnsAndUpdateSortingKey_appends_to_sorting_key:
  assumes "table_name \<noteq> ''flows''" "columns \<noteq> []"
    and "query_error c = None" "tables c table_name = Some t"
  shows "addColumnsAndUpdateSortingKey c table_name after columns =
         Inr (addColumnsAfter after columns @ '', MODIFY ORDER BY ('' @
                (sorting_key t @ '', '' @ Join (map columnSpecToName columns) '', '') @ '')'')"
  using addColumnsAndUpdateSortingKey_other [OF assms(1,3,4)] by simp

theorem addColumnsAndUpdateSortingKey_appends_to_sorting_key_witness:
  "''flows_1m0s'' \<noteq> ''flows'' \<and>
   addColumnsAndUpdateSortingKey
     \<lparr>tables = [''flows_1m0s'' \<mapsto>
          \<lparr>sorting_key = ''TimeReceived, ExporterAddress'', engine_full = ''SummingMergeTree'',
           as_select = [], create_table_query = [],
           table_columns = [(''TimeReceived'', ''DateTime''), (''DstAS'', ''UInt32'')]\<rparr>],
      server = (\<lambda>stmt t. Inr t), query_error = None, executed = []\<rparr>
     ''flows_1m0s'' ''DstAS''
     [''SrcNetName LowCardinality(String)'', ''IF NOT EXISTS DstNetName LowCardinality(String)''] =
   Inr (''ADD COLUMN SrcNetName LowCardinality(String) AFTER DstAS, '' @
        ''ADD COLUMN IF NOT EXISTS DstNetName LowCardinality(String) AFTER SrcNetName, '' @
        ''MODIFY ORDER BY (TimeReceived, ExporterAddress, SrcNetName, DstNetName)'')"
  using addColumnsAndUpdateSortingKey_appends_to_sorting_key
    [of "''flows_1m0s''"
        "[''SrcNetName LowCardinality(String)'', ''IF NOT EXISTS DstNetName LowCardinality(String)'']"
        "\<lparr>tables = [''flows_1m0s'' \<mapsto>
          \<lparr>sorting_key = ''TimeReceived, ExporterAddress'', engine_full = ''SummingMergeTree'',
           as_select = [], create_table_query = [],
           table_columns = [(''TimeReceived'', ''DateTime''), (''DstAS'', ''UInt32'')]\<rparr>],
          server = (\<lambda>stmt t. Inr t), query_error = None, executed = []\<rparr>"
        _ "''DstAS''"]
  by (simp add: addColumnsAfter_def columnSpecToName_def TrimPrefix_def HasPrefix_def)

section \<open>Creating the flows tables\<close>

lemma CreateFlowsTable_check:
  assumes "migrationsStepCreateFlowsTable config resolution = Inr step"
  shows "CheckQuery step = tableExistsQuery \<and> Args step = [flowsTableName resolution]"
  using assms
  by (auto simp: migrationsStepCreateFlowsTable_def flowsTableName_def Let_def
      split: if_splits sum.splits)

text \<open>
  Claim C9. For every resolution, the check of \<open>CreateFlowsTable\<close> tests only that a
  table with the expected name exists in the current database: it returns a row for
  any table of that name, whatever its columns, engine, sort key or partitioning, so
  such a table is taken as already created and \<open>Do\<close> is not invoked.
\<close>

theorem CreateFlowsTable_check_tests_name_only:
  assumes "migrationsStepCreateFlowsTable config resolution = Inr step"
  shows "CheckQuery step = tableExistsQuery \<and>
         Args step = [flowsTableName resolution] \<and>
         (\<forall>db. check step db = (if flowsTableName resolution \<in> dom db then Row 1 else NoRow)) \<and>
         (\<forall>db. do_invoked (check step db) \<longleftrightarrow> flowsTableName resolution \<notin> dom db) \<and>
         (\<forall>db t. \<not> do_invoked (check step (db(flowsTableName resolution \<mapsto> t))))"
  using CreateFlowsTable_check [OF assms]
  by (simp add: check_def QueryRow_tableExists do_invoked_def)

theorem CreateFlowsTable_check_tests_name_only_witness:
  "\<exists>step. migrationsStepCreateFlowsTable
       \<lparr>MaxPartitions = 50, Kafka = \<lparr>Brokers = [''kafka:9092''], Topic = ''flows'', Consumers = 1\<rparr>\<rparr>
       \<lparr>Interval = 60 * 1000000000, TTL = 7 * 86400 * 1000000000\<rparr> = Inr step \<and>
     Args step = [''flows_1m0s''] \<and>
     \<not> do_invoked (check step
       [''flows_1m0s'' \<mapsto>
          \<lparr>sorting_key = ''TimeReceived'', engine_full = ''MergeTree ORDER BY TimeReceived'',
           as_select = [], create_table_query = ''CREATE TABLE flows_1m0s (TimeReceived DateTime)'',
           table_columns = [(''TimeReceived'', ''DateTime'')]\<rparr>])"
proof -
  define C where "C = \<lparr>MaxPartitions = 50, Kafka = \<lparr>Brokers = [''kafka:9092''], Topic = ''flows'', Consumers = 1\<rparr>\<rparr>"
  define R where "R = \<lparr>Interval = 60 * 1000000000, TTL = 7 * 86400 * 1000000000\<rparr>"
  have n: "flowsTableName R = ''flows_1m0s''"
    by (simp add: flowsTableName_def R_def duration_string_eval)
  obtain step where s: "migrationsStepCreateFlowsTable C R = Inr step"
    by (simp add: migrationsStepCreateFlowsTable_def R_def Let_def)
  note th = CreateFlowsTable_check_tests_name_only [OF s, unfolded n]
  from th have "Args step = [''flows_1m0s'']"
    by (rule conjunct1 [OF conjunct2])
  moreover from th have "\<And>db t. \<not> do_invoked (check step (db(''flows_1m0s'' \<mapsto> t)))"
    by blast
  ultimately show ?thesis
    using s unfolding C_def R_def by blast
qed

section \<open>Fixing the order of the country columns\<close>

lemma FixOrderByCountry_check:
  assumes "Interval resolution \<noteq> 0"
  shows "check (migrationStepFixOrderByCountry resolution) db =
         (if in_sort_key db (flowsTableName resolution) ''SrcCountry'' then Row 1 else NoRow)"
  using assms
  by (simp add: check_def migrationStepFixOrderByCountry_def Let_def QueryRow_sortingKeyHas
      flowsTableName_def)

lemma countryColumns_after:
  "addColumnsAfter ''DstNetTenant'' [''SrcCountry FixedString(2)'', ''DstCountry FixedString(2)''] =
   ''ADD COLUMN SrcCountry FixedString(2) AFTER DstNetTenant, '' @
   ''ADD COLUMN DstCountry FixedString(2) AFTER SrcCountry''"
  by (simp add: addColumnsAfter_def columnSpecToName_def TrimPrefix_def HasPrefix_def)

lemma flowsTableName_not_flows:
  assumes "Interval resolution \<noteq> 0"
  shows "flowsTableName resolution \<noteq> ''flows''"
  using assms by (simp add: flowsTableName_def)

lemma FixOrderByCountry_Do:
  assumes "Interval resolution \<noteq> 0"
  shows "Do (migrationStepFixOrderByCountry resolution) c =
         (case Exec c (dropCountryColumns (flowsTableName resolution)) of
            Inl err \<Rightarrow> Inl (CannotDropCountryColumns err)
          | Inr c' \<Rightarrow>
              (case query_error c' of
                 Some err \<Rightarrow> Inl (CannotQuerySortingKey (flowsTableName resolution) err)
               | None \<Rightarrow>
                   (case tables c' (flowsTableName resolution) of
                      None \<Rightarrow> Inl (UnableToParseSortingKey ErrNoRows)
                    | Some t \<Rightarrow>
                        Exec c' (addCountryColumns (flowsTableName resolution) (sorting_key t)))))"
proof -
  have nf: "flowsTableName resolution \<noteq> ''flows''"
    by (rule flowsTableName_not_flows [OF assms])
  have a: "addColumnsAndUpdateSortingKey c' (flowsTableName resolution) ''DstNetTenant''
             [''SrcCountry FixedString(2)'', ''DstCountry FixedString(2)''] =
           (case query_error c' of
              Some err \<Rightarrow> Inl (CannotQuerySortingKey (flowsTableName resolution) err)
            | None \<Rightarrow>
                (case tables c' (flowsTableName resolution) of
                   None \<Rightarrow> Inl (UnableToParseSortingKey ErrNoRows)
                 | Some t \<Rightarrow>
                     Inr (''ADD COLUMN SrcCountry FixedString(2) AFTER DstNetTenant, '' @
                          ''ADD COLUMN DstCountry FixedString(2) AFTER SrcCountry, '' @
                          ''MODIFY ORDER BY ('' @ sorting_key t @ '', SrcCountry, DstCountry)'')))" for c'
    using nf
    by (simp add: addColumnsAndUpdateSortingKey_def appendToSortingKey_def countryColumns_after
        columnSpecToName_def TrimPrefix_def HasPrefix_def Let_def split: option.splits)
  have "Do (migrationStepFixOrderByCountry resolution) c =
        (case Exec c (dropCountryColumns (flowsTableName resolution)) of
           Inl err \<Rightarrow> Inl (CannotDropCountryColumns err)
         | Inr c' \<Rightarrow>
             (case addColumnsAndUpdateSortingKey c' (flowsTableName resolution) ''DstNetTenant''
                     [''SrcCountry FixedString(2)'', ''DstCountry FixedString(2)''] of
                Inl err \<Rightarrow> Inl err
              | Inr modifications \<Rightarrow>
                  Exec c' (''ALTER TABLE '' @ flowsTableName resolution @ '' '' @ modifications)))"
    using assms
    by (simp add: migrationStepFixOrderByCountry_def Let_def flowsTableName_def
        dropCountryColumns_def cong: sum.case_cong)
  also have "\<dots> =
         (case Exec c (dropCountryColumns (flowsTableName resolution)) of
            Inl err \<Rightarrow> Inl (CannotDropCountryColumns err)
          | Inr c' \<Rightarrow>
              (case query_error c' of
                 Some err \<Rightarrow> Inl (CannotQuerySortingKey (flowsTableName resolution) err)
               | None \<Rightarrow>
                   (case tables c' (flowsTableName resolution) of
                      None \<Rightarrow> Inl (UnableToParseSortingKey ErrNoRows)
                    | Some t \<Rightarrow>
                        Exec c' (addCountryColumns (flowsTableName resolution) (sorting_key t)))))"
    by (simp add: a addCountryColumns_def split: sum.splits option.splits)
  finally show ?thesis .
qed

text \<open>
  Claim C1, amended. For every resolution \<open>R\<close> with \<open>Interval \<noteq> 0\<close>, under the step
  contract that \<open>Do\<close> is invoked iff the check query returns no row or a falsy row,
  \<open>FixOrderByCountry R\<close> invokes its \<open>Do\<close> exactly when \<open>SrcCountry\<close> does not sit in the
  sort key of \<open>flows_<Interval>\<close> (also when there is no such table); the \<open>Do\<close> then
  drops the columns \<open>SrcCountry\<close> and \<open>DstCountry\<close> and adds them again after
  \<open>DstNetTenant\<close>, appending their names to the sort key it reads after the drop. For the
  resolution with \<open>Interval = 0\<close> the step is the null step: its check returns a row
  \<open>1\<close>, its \<open>Do\<close> is not invoked and would change nothing.
\<close>

theorem FixOrderByCountry_runs_when_country_not_in_sort_key:
  "(Interval resolution \<noteq> 0 \<longrightarrow>
      (\<forall>db. do_invoked (check (migrationStepFixOrderByCountry resolution) db) \<longleftrightarrow>
            \<not> in_sort_key db (flowsTableName resolution) ''SrcCountry'') \<and>
      (\<forall>c err. Exec c (dropCountryColumns (flowsTableName resolution)) = Inl err \<longrightarrow>
         Do (migrationStepFixOrderByCountry resolution) c = Inl (CannotDropCountryColumns err)) \<and>
      (\<forall>c c' t.
         Exec c (dropCountryColumns (flowsTableName resolution)) = Inr c' \<and>
         query_error c' = None \<and> tables c' (flowsTableName resolution) = Some t \<longrightarrow>
         Do (migrationStepFixOrderByCountry resolution) c =
           Exec c' (addCountryColumns (flowsTableName resolution) (sorting_key t)))) \<and>
   (Interval resolution = 0 \<longrightarrow>
      migrationStepFixOrderByCountry resolution = nullMigrationStep \<and>
      (\<forall>db. check (migrationStepFixOrderByCountry resolution) db = Row 1 \<and>
            \<not> do_invoked (check (migrationStepFixOrderByCountry resolution) db)) \<and>
      (\<forall>c. Do (migrationStepFixOrderByCountry resolution) c = Inr c))"
proof (intro conjI impI allI)
  fix db
  assume "Interval resolution \<noteq> 0"
  then show "do_invoked (check (migrationStepFixOrderByCountry resolution) db) \<longleftrightarrow>
             \<not> in_sort_key db (flowsTableName resolution) ''SrcCountry''"
    by (simp add: FixOrderByCountry_check do_invoked_def)
next
  fix c err
  assume "Interval resolution \<noteq> 0"
    and "Exec c (dropCountryColumns (flowsTableName resolution)) = Inl err"
  then show "Do (migrationStepFixOrderByCountry resolution) c = Inl (CannotDropCountryColumns err)"
    by (simp add: FixOrderByCountry_Do)
next
  fix c c' t
  assume "Interval resolution \<noteq> 0"
    and "Exec c (dropCountryColumns (flowsTableName resolution)) = Inr c' \<and>
         query_error c' = None \<and> tables c' (flowsTableName resolution) = Some t"
  then show "Do (migrationStepFixOrderByCountry resolution) c =
             Exec c' (addCountryColumns (flowsTableName resolution) (sorting_key t))"
    by (simp add: FixOrderByCountry_Do)
next
  assume z: "Interval resolution = 0"
  then show n: "migrationStepFixOrderByCountry resolution = nullMigrationStep"
    by (simp add: migrationStepFixOrderByCountry_def)
  fix db
  show "check (migrationStepFixOrderByCountry resolution) db = Row 1"
    by (simp add: n check_null)
  show "\<not> do_invoked (check (migrationStepFixOrderByCountry resolution) db)"
    by (simp add: n check_null do_invoked_def)
next
  fix c
  assume "Interval resolution = 0"
  then show "Do (migrationStepFixOrderByCountry resolution) c = Inr c"
    by (simp add: migrationStepFixOrderByCountry_def nullMigrationStep_def)
qed

lemma Exec_ok:
  assumes "server c stmt (tables c) = Inr t"
  shows "Exec c stmt = Inr (c\<lparr>tables := t, executed := executed c @ [stmt]\<rparr>)"
  using assms by (simp add: Exec_def)

theorem FixOrderByCountry_runs_when_country_not_in_sort_key_witness:
  "do_invoked (check (migrationStepFixOrderByCountry \<lparr>Interval = 60 * 1000000000, TTL = 0\<rparr>)
     [''flows_1m0s'' \<mapsto>
        \<lparr>sorting_key = ''TimeReceived, ExporterAddress, SrcNetTenant, DstNetTenant'',
         engine_full = [], as_select = [], create_table_query = [],
         table_columns = [(''TimeReceived'', ''DateTime''), (''SrcCountry'', ''FixedString(2)'')]\<rparr>]) \<and>
   Do (migrationStepFixOrderByCountry \<lparr>Interval = 60 * 1000000000, TTL = 0\<rparr>)
     \<lparr>tables = [''flows_1m0s'' \<mapsto>
        \<lparr>sorting_key = ''TimeReceived, ExporterAddress, SrcNetTenant, DstNetTenant'',
         engine_full = [], as_select = [], create_table_query = [],
         table_columns = [(''TimeReceived'', ''DateTime''), (''SrcCountry'', ''FixedString(2)'')]\<rparr>],
      server = (\<lambda>stmt t. Inr t), query_error = None, executed = []\<rparr> =
   Inr \<lparr>tables = [''flows_1m0s'' \<mapsto>
        \<lparr>sorting_key = ''TimeReceived, ExporterAddress, SrcNetTenant, DstNetTenant'',
         engine_full = [], as_select = [], create_table_query = [],
         table_columns = [(''TimeReceived'', ''DateTime''), (''SrcCountry'', ''FixedString(2)'')]\<rparr>],
      server = (\<lambda>stmt t. Inr t), query_error = None,
      executed =
        [''ALTER TABLE flows_1m0s DROP COLUMN SrcCountry, DROP COLUMN DstCountry'',
         ''ALTER TABLE flows_1m0s ADD COLUMN SrcCountry FixedString(2) AFTER DstNetTenant, '' @
         ''ADD COLUMN DstCountry FixedString(2) AFTER SrcCountry, '' @
         ''MODIFY ORDER BY (TimeReceived, ExporterAddress, SrcNetTenant, DstNetTenant, SrcCountry, DstCountry)'']\<rparr> \<and>
   migrationStepFixOrderByCountry \<lparr>Interval = 0, TTL = 15 * 86400 * 1000000000\<rparr> = nullMigrationStep"
proof -
  define R where "R = \<lparr>Interval = 60 * 1000000000, TTL = 0\<rparr>"
  define T where "T = \<lparr>sorting_key = ''TimeReceived, ExporterAddress, SrcNetTenant, DstNetTenant'',
         engine_full = [], as_select = [], create_table_query = [],
         table_columns = [(''TimeReceived'', ''DateTime''), (''SrcCountry'', ''FixedString(2)'')]\<rparr>"
  define c where "c = \<lparr>tables = [''flows_1m0s'' \<mapsto> T],
      server = (\<lambda>stmt t. Inr t), query_error = None, executed = []\<rparr>"
  have i: "Interval R \<noteq> 0"
    by (simp add: R_def)
  have n: "flowsTableName R = ''flows_1m0s''"
    by (simp add: flowsTableName_def R_def duration_string_eval)
  note th = FixOrderByCountry_runs_when_country_not_in_sort_key [of R]
  from th i have a: "do_invoked (check (migrationStepFixOrderByCountry R) db) \<longleftrightarrow>
      \<not> in_sort_key db ''flows_1m0s'' ''SrcCountry''" for db
    unfolding n by blast
  from th i have b: "Do (migrationStepFixOrderByCountry R) c =
      Exec c' (addCountryColumns ''flows_1m0s'' (sorting_key t))"
    if "Exec c (dropCountryColumns ''flows_1m0s'') = Inr c' \<and>
        query_error c' = None \<and> tables c' ''flows_1m0s'' = Some t" for c c' t
    unfolding n using that by blast
  have z: "migrationStepFixOrderByCountry \<lparr>Interval = 0, TTL = 15 * 86400 * 1000000000\<rparr> = nullMigrationStep"
    using FixOrderByCountry_runs_when_country_not_in_sort_key
      [of "\<lparr>Interval = 0, TTL = 15 * 86400 * 1000000000\<rparr>"]
    by simp
  have k: "\<not> in_sort_key [''flows_1m0s'' \<mapsto> T] ''flows_1m0s'' ''SrcCountry''"
    by (simp add: in_sort_key_def T_def splitByRegexp_comma_def re_space_def)
  define c1 where "c1 = c\<lparr>executed := [dropCountryColumns ''flows_1m0s'']\<rparr>"
  have e1: "Exec c (dropCountryColumns ''flows_1m0s'') = Inr c1"
    by (simp add: Exec_def c_def c1_def)
  have d: "Do (migrationStepFixOrderByCountry R) c =
        Exec c1 (addCountryColumns ''flows_1m0s'' (sorting_key T))"
    by (rule b) (simp add: e1, simp add: c1_def c_def)
  have e2: "Exec c1 (addCountryColumns ''flows_1m0s'' (sorting_key T)) =
        Inr (c\<lparr>executed := [dropCountryColumns ''flows_1m0s'',
                              addCountryColumns ''flows_1m0s'' (sorting_key T)]\<rparr>)"
    by (simp add: Exec_def c_def c1_def)
  show ?thesis
    using a [of "[''flows_1m0s'' \<mapsto> T]"] k d e2 z
    unfolding R_def c_def T_def
    by (simp add: dropCountryColumns_def addCountryColumns_def)
qed

theorem FixOrderByCountry_not_run_when_country_in_sort_key_counterexample:
  "in_sort_key
     [''flows_1m0s'' \<mapsto>
        \<lparr>sorting_key = ''TimeReceived, ExporterAddress, SrcCountry, DstCountry'',
         engine_full = [], as_select = [], create_table_query = [],
         table_columns = [(''TimeReceived'', ''DateTime''), (''SrcCountry'', ''FixedString(2)'')]\<rparr>]
     ''flows_1m0s'' ''SrcCountry'' \<and>
   \<not> do_invoked (check (migrationStepFixOrderByCountry \<lparr>Interval = 60 * 1000000000, TTL = 0\<rparr>)
     [''flows_1m0s'' \<mapsto>
        \<lparr>sorting_key = ''TimeReceived, ExporterAddress, SrcCountry, DstCountry'',
         engine_full = [], as_select = [], create_table_query = [],
         table_columns = [(''TimeReceived'', ''DateTime''), (''SrcCountry'', ''FixedString(2)'')]\<rparr>])"
proof -
  have n: "flowsTableName \<lparr>Interval = 60000000000, TTL = 0\<rparr> = ''flows_1m0s''"
    by (simp add: flowsTableName_def duration_string_eval)
  have k: "in_sort_key
     [''flows_1m0s'' \<mapsto>
        \<lparr>sorting_key = ''TimeReceived, ExporterAddress, SrcCountry, DstCountry'',
         engine_full = [], as_select = [], create_table_query = [],
         table_columns = [(''TimeReceived'', ''DateTime''), (''SrcCountry'', ''FixedString(2)'')]\<rparr>]
     ''flows_1m0s'' ''SrcCountry''"
    by (simp add: in_sort_key_def splitByRegexp_comma_def re_space_def)
  show ?thesis
    using k by (simp add: FixOrderByCountry_check n do_invoked_def)
qed

section \<open>Adding the net mask columns\<close>

lemma AddSrcNetMaskDstNetMask_Do:
  "Do migrationStepAddSrcNetMaskDstNetMaskColumns c = Exec c addNetMaskColumns"
  by (simp add: migrationStepAddSrcNetMaskDstNetMaskColumns_def addColumnsAndUpdateSortingKey_flows
      addColumnsAfter_def columnSpecToName_def TrimPrefix_def HasPrefix_def addNetMaskColumns_def)

lemma addNetMaskColumns_no_order_by: "\<not> Contains addNetMaskColumns ''MODIFY ORDER BY''"
  by (simp add: addNetMaskColumns_def HasPrefix_def)

text \<open>
  Claim C2, amended. The step \<open>AddSrcNetMaskDstNetMask\<close> operates on the flows table
  only and adds the columns \<open>SrcNetMask UInt8\<close> after \<open>DstAddr\<close> and \<open>DstNetMask UInt8\<close>
  after \<open>SrcNetMask\<close>. It leaves the sort key of flows as it is: its \<open>Do\<close> issues one
  \<open>ALTER\<close> statement, which has no \<open>MODIFY ORDER BY\<close> clause, whatever the connection.
\<close>

theorem AddSrcNetMaskDstNetMask_adds_columns_only:
  "CheckQuery migrationStepAddSrcNetMaskDstNetMaskColumns = columnExistsQuery \<and>
   Args migrationStepAddSrcNetMaskDstNetMaskColumns = [''flows'', ''SrcNetMask''] \<and>
   (\<forall>c. Do migrationStepAddSrcNetMaskDstNetMaskColumns c = Exec c addNetMaskColumns) \<and>
   (\<forall>c c'. Do migrationStepAddSrcNetMaskDstNetMaskColumns c = Inr c' \<longrightarrow>
      executed c' = executed c @ [addNetMaskColumns]) \<and>
   \<not> Contains addNetMaskColumns ''MODIFY ORDER BY''"
proof (intro conjI allI impI)
  show "CheckQuery migrationStepAddSrcNetMaskDstNetMaskColumns = columnExistsQuery"
    and "Args migrationStepAddSrcNetMaskDstNetMaskColumns = [''flows'', ''SrcNetMask'']"
    by (simp_all add: migrationStepAddSrcNetMaskDstNetMaskColumns_def)
  show "Do migrationStepAddSrcNetMaskDstNetMaskColumns c = Exec c addNetMaskColumns" for c
    by (rule AddSrcNetMaskDstNetMask_Do)
  show "executed c' = executed c @ [addNetMaskColumns]"
    if "Do migrationStepAddSrcNetMaskDstNetMaskColumns c = Inr c'" for c c'
    using that by (auto simp: AddSrcNetMaskDstNetMask_Do Exec_def split: sum.splits)
  show "\<not> Contains addNetMaskColumns ''MODIFY ORDER BY''"
    by (rule addNetMaskColumns_no_order_by)
qed

theorem AddSrcNetMaskDstNetMask_adds_columns_only_witness:
  "Do migrationStepAddSrcNetMaskDstNetMaskColumns
     \<lparr>tables = [''flows'' \<mapsto>
        \<lparr>sorting_key = ''TimeReceived, ExporterAddress, InIfName, OutIfName'',
         engine_full = ''MergeTree'', as_select = [], create_table_query = [],
         table_columns = [(''TimeReceived'', ''DateTime''), (''DstAddr'', ''IPv6'')]\<rparr>],
      server = (\<lambda>stmt t. Inr t), query_error = None, executed = []\<rparr> =
   Inr \<lparr>tables = [''flows'' \<mapsto>
        \<lparr>sorting_key = ''TimeReceived, ExporterAddress, InIfName, OutIfName'',
         engine_full = ''MergeTree'', as_select = [], create_table_query = [],
         table_columns = [(''TimeReceived'', ''DateTime''), (''DstAddr'', ''IPv6'')]\<rparr>],
      server = (\<lambda>stmt t. Inr t), query_error = None,
      executed = [''ALTER TABLE flows ADD COLUMN SrcNetMask UInt8 AFTER DstAddr, '' @
                  ''ADD COLUMN DstNetMask UInt8 AFTER SrcNetMask'']\<rparr>"
  using AddSrcNetMaskDstNetMask_adds_columns_only
  by (simp add: Exec_def addNetMaskColumns_def)

theorem AddSrcNetMaskDstNetMask_no_order_by_counterexample:
  "Do migrationStepAddSrcNetMaskDstNetMaskColumns
     \<lparr>tables = [''flows'' \<mapsto>
        \<lparr>sorting_key = ''TimeReceived, ExporterAddress, InIfName, OutIfName'',
         engine_full = ''MergeTree'', as_select = [], create_table_query = [],
         table_columns = [(''TimeReceived'', ''DateTime''), (''SrcAddr'', ''IPv6''),
                          (''DstAddr'', ''IPv6'')]\<rparr>],
      server = (\<lambda>stmt t. Inr t), query_error = None,
      executed = [''CREATE TABLE flows (TimeReceived DateTime, SrcAddr IPv6, DstAddr IPv6)'']\<rparr> =
   Inr \<lparr>tables = [''flows'' \<mapsto>
        \<lparr>sorting_key = ''TimeReceived, ExporterAddress, InIfName, OutIfName'',
         engine_full = ''MergeTree'', as_select = [], create_table_query = [],
         table_columns = [(''TimeReceived'', ''DateTime''), (''SrcAddr'', ''IPv6''),
                          (''DstAddr'', ''IPv6'')]\<rparr>],
      server = (\<lambda>stmt t. Inr t), query_error = None,
      executed = [''CREATE TABLE flows (TimeReceived DateTime, SrcAddr IPv6, DstAddr IPv6)'',
                  ''ALTER TABLE flows ADD COLUMN SrcNetMask UInt8 AFTER DstAddr, '' @
                  ''ADD COLUMN DstNetMask UInt8 AFTER SrcNetMask'']\<rparr> \<and>
   \<not> Contains (''ALTER TABLE flows ADD COLUMN SrcNetMask UInt8 AFTER DstAddr, '' @
                ''ADD COLUMN DstNetMask UInt8 AFTER SrcNetMask'') ''MODIFY ORDER BY''"
  by (simp add: AddSrcNetMaskDstNetMask_Do addNetMaskColumns_def Exec_def HasPrefix_def)

section \<open>The characters of formatted numbers and durations\<close>

lemma digit_in: "d < 10 \<Longrightarrow> digit d \<in> set ''0123456789''"
  unfolding digit_def by (rule nth_mem) simp

lemma fmt_uint_digits: "set (fmt_uint n) \<subseteq> set ''0123456789''"
proof (induction n rule: fmt_uint.induct)
  case (1 n)
  show ?case
  proof (cases "n < 10")
    case True
    then show ?thesis
      using digit_in [of n] by (subst fmt_uint.simps) simp
  next
    case False
    have "n mod 10 < 10" by simp
    then have "digit (n mod 10) \<in> set ''0123456789''"
      by (rule digit_in)
    with False "1.IH" show ?thesis
      by (subst fmt_uint.simps) simp
  qed
qed











section \<open>The consumer view of a consolidated table\<close>

lemma fmt_uint_no_newline: "map (\<lambda>c. if c = CHR ''\<newline>'' then CHR '' '' else c) (fmt_uint n) = fmt_uint n"
proof -
  have "\<forall>c \<in> set (fmt_uint n). c \<noteq> CHR ''\<newline>''"
    using fmt_uint_digits [of n] by auto
  then show ?thesis
    by (simp add: map_idI)
qed

lemma TrimSpace_leading: "IsSpace c \<Longrightarrow> TrimSpace (c # x) = TrimSpace x"
  by (simp add: TrimSpace_def)

lemma TrimSpace_trimmed:
  assumes "x \<noteq> []" "\<not> IsSpace (hd x)" "\<not> IsSpace (last x)"
  shows "TrimSpace x = x"
proof -
  have "dropWhile IsSpace x = x"
    using assms(1,2) by (cases x) simp_all
  moreover have "dropWhile IsSpace (rev x) = rev x"
    using assms(1,3) by (cases "rev x") (simp_all add: last_rev [symmetric] hd_rev)
  ultimately show ?thesis
    by (simp add: TrimSpace_def)
qed

lemma consumerSelectClause_text: "consumerSelectClause seconds = consumerSelect seconds"
proof -
  have r: "ReplaceAll
       (''\<newline>SELECT *'' @
        ''\<newline>EXCEPT (SrcAddr, DstAddr, SrcNetMask, DstNetMask, SrcPort, DstPort, DstASPath, DstCommunities, DstLargeCommunities)'' @
        ''\<newline>REPLACE toStartOfInterval(TimeReceived, toIntervalSecond('' @ fmt_uint seconds @
        '')) AS TimeReceived'')
       CHR ''\<newline>'' CHR '' '' =
     CHR '' '' # consumerSelect seconds"
    by (simp add: ReplaceAll_def fmt_uint_no_newline consumerSelect_def consolidatedColumnsRemoved_def)
  have t: "TrimSpace (consumerSelect seconds) = consumerSelect seconds"
    by (rule TrimSpace_trimmed)
      (simp_all add: consumerSelect_def consolidatedColumnsRemoved_def IsSpace_def)
  show ?thesis
    unfolding consumerSelectClause_def r
    by (simp add: TrimSpace_leading IsSpace_def t)
qed

lemma createConsumerStatement_text:
  "createConsumerStatement (tableName @ ''_consumer'') tableName (consumerSelectClause seconds) =
   createConsumerView tableName seconds"
  by (simp add: createConsumerStatement_def createConsumerView_def consumerSelectClause_text)






section \<open>The raw flows table\<close>












section \<open>Fingerprint checks\<close>

lemma HasSuffix_append: "HasSuffix (a @ suf) suf"
  by (simp add: HasSuffix_def HasPrefix_append)

lemma digit_cases:
  assumes "d < 10"
  shows "d = 0 \<or> d = 1 \<or> d = 2 \<or> d = 3 \<or> d = 4 \<or> d = 5 \<or> d = 6 \<or> d = 7 \<or> d = 8 \<or> d = (9::nat)"
  using assms by arith

lemma digit_value_digit:
  assumes "d < 10"
  shows "digit_value (digit d) = d"
  using digit_cases [OF assms] by (elim disjE; simp add: digit_value_def digit_def)

lemma parse_uint_fmt_uint: "parse_uint (fmt_uint n) = n"
proof (induction n rule: fmt_uint.induct)
  case (1 n)
  show ?case
  proof (cases "n < 10")
    case True
    then show ?thesis
      by (subst fmt_uint.simps) (simp add: parse_uint_def digit_value_digit)
  next
    case False
    have "parse_uint (fmt_uint (n div 10) @ [digit (n mod 10)]) =
          10 * parse_uint (fmt_uint (n div 10)) + digit_value (digit (n mod 10))"
      by (simp add: parse_uint_def)
    also have "\<dots> = 10 * (n div 10) + n mod 10"
      using "1.IH" False by (simp add: digit_value_digit)
    also have "\<dots> = n"
      by simp
    finally show ?thesis
      using False by (subst fmt_uint.simps) simp
  qed
qed

lemma fmt_uint_not_Nil: "fmt_uint n \<noteq> []"
  by (subst fmt_uint.simps) simp

lemma fmt_uint_is_digit: "\<forall>c \<in> set (fmt_uint n). is_digit c"
  unfolding is_digit_def using fmt_uint_digits [of n] by (rule subsetD [THEN ballI])

lemma trailing_digits:
  assumes "\<forall>c \<in> set ds. is_digit c" "\<not> is_digit c"
  shows "rev (takeWhile is_digit (rev (a @ c # ds))) = ds"
proof -
  have "takeWhile is_digit (rev ds @ c # rev a) = rev ds @ takeWhile is_digit (c # rev a)"
    by (rule takeWhile_append2) (use assms(1) in simp)
  then show ?thesis
    using assms(2) by simp
qed

lemma fingerprint_aggregate_last: "\<exists>a. fingerprint_aggregate = a @ [CHR '' '']"
  by (simp add: fingerprint_aggregate_def)

lemma space_not_digit: "\<not> is_digit CHR '' ''"
  by (simp add: is_digit_def)

lemma read_fingerprint_query_parts:
  assumes "ds \<noteq> []" "\<forall>c \<in> set ds. is_digit c" "parse_uint ds < 2 ^ 64"
  shows "read_fingerprint_query
           (fingerprint_select @ clause @ fingerprint_aggregate @ ds @ fingerprint_from) =
         Some (clause, parse_uint ds)"
proof -
  let ?q = "fingerprint_select @ clause @ fingerprint_aggregate @ ds @ fingerprint_from"
  have p: "HasPrefix ?q fingerprint_select"
    by (rule HasPrefix_append)
  have d: "drop (length fingerprint_select) ?q = (clause @ fingerprint_aggregate @ ds) @ fingerprint_from"
    by simp
  have s: "HasSuffix (drop (length fingerprint_select) ?q) fingerprint_from"
    unfolding d by (rule HasSuffix_append)
  have body: "take (length ?q - length fingerprint_select - length fingerprint_from)
                (drop (length fingerprint_select) ?q) = clause @ fingerprint_aggregate @ ds"
    unfolding d by simp
  obtain a where a: "fingerprint_aggregate = a @ [CHR '' '']"
    using fingerprint_aggregate_last by blast
  have "clause @ fingerprint_aggregate @ ds = (clause @ a) @ CHR '' '' # ds"
    by (simp add: a)
  then have digits: "rev (takeWhile is_digit (rev (clause @ fingerprint_aggregate @ ds))) = ds"
    by (simp only: trailing_digits [OF assms(2) space_not_digit])
  have before: "take (length (clause @ fingerprint_aggregate @ ds) - length ds)
                  (clause @ fingerprint_aggregate @ ds) = clause @ fingerprint_aggregate"
    by simp
  have suf: "HasSuffix (clause @ fingerprint_aggregate) fingerprint_aggregate"
    by (rule HasSuffix_append)
  have rest: "take (length (clause @ fingerprint_aggregate) - length fingerprint_aggregate)
                (clause @ fingerprint_aggregate) = clause"
    by simp
  show ?thesis
    unfolding read_fingerprint_query_def Let_def body digits before
    using p s suf assms(1,3) rest by simp
qed

lemma queryTableHash_parts:
  "queryTableHash hash more_clause =
     fingerprint_select @ more_clause @ fingerprint_aggregate @ fmt_uint (unat hash) @ fingerprint_from"
  by (simp add: queryTableHash_def fingerprint_select_def fingerprint_aggregate_def fingerprint_from_def)

lemma read_queryTableHash:
  "read_fingerprint_query (queryTableHash hash more_clause) = Some (more_clause, unat hash)"
proof -
  have "unat hash < 2 ^ 64"
    using unsigned_less [of hash] by simp
  then show ?thesis
    unfolding queryTableHash_parts
    using read_fingerprint_query_parts [of "fmt_uint (unat hash)" more_clause]
    by (simp add: parse_uint_fmt_uint fmt_uint_not_Nil fmt_uint_is_digit)
qed

lemma QueryRow_fingerprint_queryTableHash:
  "QueryRow_fingerprint cityHash64 db (queryTableHash hash more_clause) (name # args) =
     (case read_more more_clause (name # args) of
        None \<Rightarrow> QueryFailed
      | Some passes \<Rightarrow>
          (case db name of
             None \<Rightarrow> NoRow
           | Some t \<Rightarrow>
               if passes t then Row (if fingerprint cityHash64 db name = hash then 1 else 0)
               else NoRow))"
  by (simp add: QueryRow_fingerprint_def read_queryTableHash t1_rows_def t2_rows_def
      word_unat_eq_iff split: option.splits)

lemma tables_column_cases:
  assumes "tables_column col = Some f"
  shows "col = ''sorting_key'' \<and> f = sorting_key \<or> col = ''engine_full'' \<and> f = engine_full \<or>
         col = ''as_select'' \<and> f = as_select \<or> col = ''create_table_query'' \<and> f = create_table_query"
  using assms by (simp add: tables_column_def split: if_splits)

lemma read_more_empty: "read_more [] args = Some (\<lambda>t. True)"
  by (simp add: read_more_def)

lemma read_more_equals_argument:
  assumes "tables_column col = Some f"
  shows "read_more (''AND '' @ col @ '' = $2'') (name # v # args) = Some (\<lambda>t. f t = v)"
  using tables_column_cases [OF assms]
  by (elim disjE conjE; simp add: read_more_def HasPrefix_def tables_column_def operand_value_def)

lemma read_more_LIKE_argument:
  assumes "tables_column col = Some f" "CHR 0x5C \<notin> set pattern"
  shows "read_more (''AND '' @ col @ '' LIKE $2'') (name # pattern # args) =
         Some (\<lambda>t. like (f t) pattern)"
  using tables_column_cases [OF assms(1)] assms(2)
  by (elim disjE conjE; simp add: read_more_def HasPrefix_def tables_column_def operand_value_def)

lemma read_more_LIKE_literal:
  assumes "tables_column col = Some f" "CHR 0x27 \<notin> set pattern" "CHR 0x5C \<notin> set pattern"
  shows "read_more (''AND '' @ col @ '' LIKE '' @ [CHR 0x27] @ pattern @ [CHR 0x27]) args =
         Some (\<lambda>t. like (f t) pattern)"
  using tables_column_cases [OF assms(1)] assms(2,3)
  by (elim disjE conjE; simp add: read_more_def HasPrefix_def tables_column_def operand_value_def)

text \<open>
  The check of \<open>CreateRawFlowsTable\<close>: the raw table exists, its engine is the Kafka
  engine of the configuration, and its columns have the fingerprint of the step.
\<close>

lemma CreateRawFlowsTable_check:
  "QueryRow_fingerprint cityHash64 db
     (CheckQuery (migrationStepCreateRawFlowsTable config v))
     (Args (migrationStepCreateRawFlowsTable config v)) = Row 1 \<longleftrightarrow>
   (\<exists>t. db (rawTableName v) = Some t \<and> engine_full t = kafkaEngine config v \<and>
        fingerprint cityHash64 db (rawTableName v) = 8163754828379578018)"
proof -
  have m: "read_more ''AND engine_full = $2'' [rawTableName v, kafkaEngine config v] =
           Some (\<lambda>t. engine_full t = kafkaEngine config v)"
    using read_more_equals_argument [of "''engine_full''" engine_full "rawTableName v" "kafkaEngine config v" "[]"]
    by (simp add: tables_column_def)
  have q: "CheckQuery (migrationStepCreateRawFlowsTable config v) =
           queryTableHash 8163754828379578018 ''AND engine_full = $2''"
    by (simp add: migrationStepCreateRawFlowsTable_def Let_def)
  have a: "Args (migrationStepCreateRawFlowsTable config v) = [rawTableName v, kafkaEngine config v]"
    by (simp add: migrationStepCreateRawFlowsTable_def rawTableName_def Let_def)
  show ?thesis
    unfolding q a QueryRow_fingerprint_queryTableHash m
    by (simp split: option.splits)
qed

text \<open>
  Claim C6. For every expected 64-bit hash and every extra clause that is read as a
  filter \<open>passes\<close> on the row of \<^verbatim>\<open>system.tables\<close> (no clause passes every row), the
  check query built by \<open>queryTableHash\<close> returns \<open>1\<close> if and only if the named table exists
  in the current database, the extra clause passes it, and
  \<open>groupBitXor(cityHash64(name, type, position))\<close> over the table's columns equals the
  expected hash; in every other case the result is a row \<open>0\<close> or no row at all.
\<close>

theorem queryTableHash_returns_1_iff:
  assumes "read_more more_clause (name # args) = Some passes"
  shows "(QueryRow_fingerprint cityHash64 db (queryTableHash hash more_clause) (name # args) = Row 1 \<longleftrightarrow>
            (\<exists>t. db name = Some t \<and> passes t \<and> fingerprint cityHash64 db name = hash)) \<and>
         (QueryRow_fingerprint cityHash64 db (queryTableHash hash more_clause) (name # args) \<noteq> Row 1 \<longrightarrow>
            QueryRow_fingerprint cityHash64 db (queryTableHash hash more_clause) (name # args)
              \<in> {Row 0, NoRow}) \<and>
         (more_clause = [] \<longrightarrow> (\<forall>t. passes t))"
proof (intro conjI)
  note r = QueryRow_fingerprint_queryTableHash [of cityHash64 db hash more_clause name args]
  show "QueryRow_fingerprint cityHash64 db (queryTableHash hash more_clause) (name # args) = Row 1 \<longleftrightarrow>
          (\<exists>t. db name = Some t \<and> passes t \<and> fingerprint cityHash64 db name = hash)"
    unfolding r using assms by (simp split: option.splits)
  show "QueryRow_fingerprint cityHash64 db (queryTableHash hash more_clause) (name # args) \<noteq> Row 1 \<longrightarrow>
          QueryRow_fingerprint cityHash64 db (queryTableHash hash more_clause) (name # args)
            \<in> {Row 0, NoRow}"
    unfolding r using assms by (simp split: option.splits)
  show "more_clause = [] \<longrightarrow> (\<forall>t. passes t)"
    using assms by (auto simp: read_more_empty)
qed

theorem queryTableHash_returns_1_iff_witness:
  "QueryRow_fingerprint (\<lambda>n ty i. of_nat (length n + 7 * i))
     [''flows_1_raw_consumer'' \<mapsto>
        \<lparr>sorting_key = [], engine_full = ''MaterializedView'',
         as_select = ''SELECT TimeReceived FROM flows_1_raw WHERE length(_error) = 0'',
         create_table_query = [],
         table_columns = [(''TimeReceived'', ''DateTime''), (''ExporterAddress'', ''IPv6'')]\<rparr>]
     (queryTableHash 14
        (''AND as_select LIKE '' @ [CHR 0x27] @ ''% WHERE length(_error) = 0'' @ [CHR 0x27]))
     [''flows_1_raw_consumer''] = Row 1 \<and>
   QueryRow_fingerprint (\<lambda>n ty i. of_nat (length n + 7 * i))
     [''flows_1_raw_consumer'' \<mapsto>
        \<lparr>sorting_key = [], engine_full = ''MaterializedView'',
         as_select = ''SELECT TimeReceived FROM flows_1_raw WHERE length(_error) = 0'',
         create_table_query = [],
         table_columns = [(''TimeReceived'', ''DateTime''), (''ExporterAddress'', ''IPv6'')]\<rparr>]
     (queryTableHash 7925127510274634003
        (''AND as_select LIKE '' @ [CHR 0x27] @ ''% WHERE length(_error) = 0'' @ [CHR 0x27]))
     [''flows_1_raw_consumer''] = Row 0 \<and>
   QueryRow_fingerprint (\<lambda>n ty i. of_nat (length n + 7 * i))
     [''flows_1_raw_consumer'' \<mapsto>
        \<lparr>sorting_key = [], engine_full = ''MaterializedView'',
         as_select = ''SELECT TimeReceived FROM flows_1_raw'',
         create_table_query = [],
         table_columns = [(''TimeReceived'', ''DateTime''), (''ExporterAddress'', ''IPv6'')]\<rparr>]
     (queryTableHash 14
        (''AND as_select LIKE '' @ [CHR 0x27] @ ''% WHERE length(_error) = 0'' @ [CHR 0x27]))
     [''flows_1_raw_consumer''] = NoRow \<and>
   QueryRow_fingerprint (\<lambda>n ty i. of_nat (length n + 7 * i)) Map.empty
     (queryTableHash 0 []) [''exporters''] = NoRow \<and>
   QueryRow_fingerprint (\<lambda>n ty i. of_nat (length n + 7 * i)) Map.empty
     ''SELECT 1'' [''exporters''] = QueryFailed"
proof -
  define h :: "string \<Rightarrow> string \<Rightarrow> nat \<Rightarrow> 64 word" where "h = (\<lambda>n ty i. of_nat (length n + 7 * i))"
  define T where "T = \<lparr>sorting_key = [], engine_full = ''MaterializedView'',
         as_select = ''SELECT TimeReceived FROM flows_1_raw WHERE length(_error) = 0'',
         create_table_query = [],
         table_columns = [(''TimeReceived'', ''DateTime''), (''ExporterAddress'', ''IPv6'')]\<rparr>"
  define U where "U = \<lparr>sorting_key = [], engine_full = ''MaterializedView'',
         as_select = ''SELECT TimeReceived FROM flows_1_raw'',
         create_table_query = [],
         table_columns = [(''TimeReceived'', ''DateTime''), (''ExporterAddress'', ''IPv6'')]\<rparr>"
  define clause where
    "clause = ''AND as_select LIKE '' @ [CHR 0x27] @ ''% WHERE length(_error) = 0'' @ [CHR 0x27]"
  define passes :: "table \<Rightarrow> bool" where
    "passes = (\<lambda>t. like (as_select t) ''% WHERE length(_error) = 0'')"
  have m: "read_more clause (''flows_1_raw_consumer'' # []) = Some passes"
    unfolding clause_def passes_def
    using read_more_LIKE_literal
      [of "''as_select''" as_select "''% WHERE length(_error) = 0''" "[''flows_1_raw_consumer'']"]
    by (simp add: tables_column_def)
  have pT: "passes T"
    by (simp add: passes_def T_def)
  have pU: "\<not> passes U"
    by (simp add: passes_def U_def)
  have fT: "fingerprint h [''flows_1_raw_consumer'' \<mapsto> T] ''flows_1_raw_consumer'' = 14"
    by (simp add: fingerprint_def system_columns_def groupBitXor_def T_def h_def enumerate_eq_zip upt_rec)
  have a: "QueryRow_fingerprint h [''flows_1_raw_consumer'' \<mapsto> T] (queryTableHash 14 clause)
             [''flows_1_raw_consumer''] = Row 1"
    using queryTableHash_returns_1_iff [OF m, of h "[''flows_1_raw_consumer'' \<mapsto> T]" 14] pT fT
    by simp
  have b: "QueryRow_fingerprint h [''flows_1_raw_consumer'' \<mapsto> T]
             (queryTableHash 7925127510274634003 clause) [''flows_1_raw_consumer''] = Row 0"
    by (simp add: QueryRow_fingerprint_queryTableHash m pT fT)
  have c: "QueryRow_fingerprint h [''flows_1_raw_consumer'' \<mapsto> U] (queryTableHash 14 clause)
             [''flows_1_raw_consumer''] = NoRow"
    by (simp add: QueryRow_fingerprint_queryTableHash m pU)
  have d: "QueryRow_fingerprint h Map.empty (queryTableHash 0 []) [''exporters''] = NoRow"
    by (simp add: QueryRow_fingerprint_queryTableHash read_more_empty)
  have e: "QueryRow_fingerprint h Map.empty ''SELECT 1'' [''exporters''] = QueryFailed"
    by (simp add: QueryRow_fingerprint_def read_fingerprint_query_def HasPrefix_def
        fingerprint_select_def)
  show ?thesis
    using a b c d e unfolding h_def T_def U_def clause_def by simp
qed

end
